theory Spec2Isabelle
  imports Main "HOL-Library.Char_ord" "HOL-Library.List_Lexorder" "HOL-Library.Product_Lexorder"
begin

section \<open>Text, errors and Python values\<close>

text \<open>
  Python text is carried as a \<open>string\<close> holding its UTF-8 code units. The characters the
  translation tables of \<open>serialization.py\<close> look at are ASCII, and no ASCII byte occurs
  inside a multi-byte UTF-8 sequence, so \<open>str.translate\<close> with these tables acts on the
  code units as it acts on the code points, and \<open>str.encode('utf-8')\<close> keeps the
  representation.
\<close>

datatype error =
    KeyError string | ValueError string | TypeError string | AttributeError string
  | IndexError string | SyntaxError string

datatype warning = UserWarning string

definition backslash :: char where
  "backslash = CHR 0x5C"

definition dquote :: char where
  "dquote = CHR 0x22"

definition squote :: char where
  "squote = CHR 0x27"

definition newline :: char where
  "newline = CHR 0x0A"

text \<open>
  The values a point stores under a tag or a field. A float, a bytes object and any other
  object are carried by the text \<open>str()\<close> gives them, which is also what \<open>format\<close> with an
  empty format specification prints. \<open>PBytes\<close> stands for a \<open>bytes\<close> or a \<open>bytearray\<close>
  object, the built-in values other than text that have a \<open>translate\<close> method. \<open>PObj\<close>
  stands for every object without a \<open>translate\<close> attribute that is none of the others.
\<close>

datatype scalar =
    PNone
  | PBool bool
  | PInt int
  | PFloat string
  | PStr string
  | PBytes string
  | PObj string

text \<open>Python's decimal rendering of an unbounded integer.\<close>

definition digit :: "nat \<Rightarrow> char" where
  "digit n = ''0123456789'' ! (n mod 10)"

function str_nat :: "nat \<Rightarrow> string" where
  "str_nat n = (if n < 10 then [digit n] else str_nat (n div 10) @ [digit n])"
  by pat_completeness auto
termination
  by (relation "measure id") auto

declare str_nat.simps [simp del]

definition str_int :: "int \<Rightarrow> string" where
  "str_int i = (if i < 0 then CHR ''-'' # str_nat (nat (- i)) else str_nat (nat i))"

fun py_str :: "scalar \<Rightarrow> string" where
  "py_str PNone = ''None''"
| "py_str (PBool b) = (if b then ''True'' else ''False'')"
| "py_str (PInt i) = str_int i"
| "py_str (PFloat t) = t"
| "py_str (PStr s) = s"
| "py_str (PBytes t) = t"
| "py_str (PObj t) = t"

text \<open>\<open>sep.join(xs)\<close>\<close>

fun join :: "string \<Rightarrow> string list \<Rightarrow> string" where
  "join sep [] = []"
| "join sep [x] = x"
| "join sep (x # y # ys) = x @ sep @ join sep (y # ys)"

text \<open>
  The outcomes of a comprehension whose elements may raise: the values in order, or the
  first error.
\<close>

fun collect :: "('e + 'a) list \<Rightarrow> 'e + 'a list" where
  "collect [] = Inr []"
| "collect (Inl err # rest) = Inl err"
| "collect (Inr x # rest) = (case collect rest of Inl err \<Rightarrow> Inl err | Inr xs \<Rightarrow> Inr (x # xs))"

section \<open>Escaping\<close>

text \<open>
  A table of \<open>str.maketrans\<close>: each listed character is replaced by its text, every other
  character stays.
\<close>

type_synonym table = "(char \<times> string) list"

definition translate :: "table \<Rightarrow> string \<Rightarrow> string" where
  "translate tbl s = concat (map (\<lambda>c. case map_of tbl c of None \<Rightarrow> [c] | Some r \<Rightarrow> r) s)"

definition key_escape :: table where
  "key_escape = [(backslash, [backslash, backslash]), (CHR '','', [backslash, CHR '','']),
     (CHR '' '', [backslash, CHR '' '']), (CHR ''='', [backslash, CHR ''='']), (newline, [])]"

definition tag_escape :: table where
  "tag_escape = [(backslash, [backslash, backslash]), (CHR '','', [backslash, CHR '','']),
     (CHR '' '', [backslash, CHR '' '']), (CHR ''='', [backslash, CHR ''='']), (newline, [])]"

definition str_escape :: table where
  "str_escape = [(backslash, [backslash, backslash]), (dquote, [backslash, dquote]), (newline, [])]"

definition measurement_escape :: table where
  "measurement_escape = [(backslash, [backslash, backslash]), (CHR '','', [backslash, CHR '','']),
     (CHR '' '', [backslash, CHR '' '']), (newline, [])]"

text \<open>
  \<open>escape\<close> tries \<open>string.translate(escape_pattern)\<close>. A \<open>str\<close> has the method. A \<open>bytes\<close>
  or \<open>bytearray\<close> object has a method of that name too, which takes a 256-byte table and
  raises TypeError on a mapping; that is no AttributeError, so it leaves \<open>escape\<close>. Every
  other value has no such attribute: the handler warns and translates \<open>str(string)\<close>, with
  \<open>tag_escape\<close> whatever the pattern passed. The result pairs the warnings issued with the
  value or the error.
\<close>

definition non_string_warning :: warning where
  "non_string_warning = UserWarning (''Non-string-like data passed. Attempting to convert to ''
     @ [squote] @ ''str'' @ [squote] @ ''.'')"

definition bytes_translate_error :: error where
  "bytes_translate_error = TypeError (''a bytes-like object is required, not ''
     @ [squote] @ ''dict'' @ [squote])"

fun escape :: "scalar \<Rightarrow> table \<Rightarrow> warning list \<times> (error + string)" where
  "escape (PStr s) escape_pattern = ([], Inr (translate escape_pattern s))"
| "escape (PBytes t) escape_pattern = ([], Inl bytes_translate_error)"
| "escape v escape_pattern = ([non_string_warning], Inr (translate tag_escape (py_str v)))"

section \<open>Points\<close>

text \<open>
  A naive or aware \<open>datetime\<close>: \<open>wall\<close> is its calendar reading counted in seconds from
  1970-01-01 00:00:00 without regard to any zone, \<open>microsecond\<close> its sub-second part and
  \<open>tzinfo\<close> the UTC offset in seconds of an aware value.
\<close>

record datetime =
  wall :: int
  microsecond :: nat
  tzinfo :: "int option"

datatype timeval = TDateTime datetime | TText string

text \<open>
  A point is a mapping with text keys; each of its four entries (\<open>measurement\<close>, \<open>tags\<close>, \<open>fields\<close>,
  \<open>time\<close>) may be absent. Mappings that
  are iterated are association lists in insertion order.
\<close>

record point =
  point_measurement :: "scalar option"
  point_tags :: "(string \<times> scalar) list option"
  point_fields :: "(string \<times> scalar) list option"
  point_time :: "timeval option"

text \<open>
  \<open>_parse_fields\<close>: the loop appends one token per field to \<open>output\<close> and skips \<open>None\<close>. A key
  is text, so \<open>escape\<close> neither warns nor raises on it.
\<close>

fun fields_loop :: "(string \<times> scalar) list \<Rightarrow> string list \<Rightarrow> string list" where
  "fields_loop [] output = output"
| "fields_loop ((k, v) # rest) output =
     (let k' = translate key_escape k in
      case v of
        PBool b \<Rightarrow> fields_loop rest (output @ [k' @ ''='' @ py_str v])
      | PInt i \<Rightarrow> fields_loop rest (output @ [k' @ ''='' @ str_int i @ ''i''])
      | PStr s \<Rightarrow> fields_loop rest (output @ [k' @ ''='' @ [dquote] @ translate str_escape s @ [dquote]])
      | PNone \<Rightarrow> fields_loop rest output
      | _ \<Rightarrow> fields_loop rest (output @ [k' @ ''='' @ py_str v]))"

definition parse_fields :: "point \<Rightarrow> error + string" where
  "parse_fields point =
     (case point_fields point of
        None \<Rightarrow> Inl (KeyError ''fields'')
      | Some fs \<Rightarrow> Inr (join '','' (fields_loop fs [])))"

text \<open>
  \<open>_parse_measurement\<close>: only the lookup \<open>point['measurement']\<close> can raise the KeyError the
  handler catches. The \<open>measurement\<close> parameter is a Python value, \<open>PNone\<close> when it is not
  given. Warnings do not change the control flow and are dropped here.
\<close>

definition measurement_missing :: error where
  "measurement_missing = ValueError ([squote] @ ''measurement'' @ [squote] @ '' missing'')"

definition parse_measurement :: "point \<Rightarrow> scalar \<Rightarrow> error + string" where
  "parse_measurement point measurement =
     (case point_measurement point of
        Some m \<Rightarrow> snd (escape m measurement_escape)
      | None \<Rightarrow>
          if measurement = PNone then Inl measurement_missing
          else snd (escape measurement measurement_escape))"

text \<open>
  \<open>{**point['tags'], **extra_tags}\<close>: the entries of the first mapping in their order, a key
  that the second mapping has too keeps its place and takes the second value, and the keys
  only the second mapping has follow in its order.
\<close>

fun dict_set :: "string \<Rightarrow> 'v \<Rightarrow> (string \<times> 'v) list \<Rightarrow> (string \<times> 'v) list" where
  "dict_set k v [] = [(k, v)]"
| "dict_set k v ((k', v') # rest) =
     (if k' = k then (k, v) # rest else (k', v') # dict_set k v rest)"

definition dict_merge :: "(string \<times> 'v) list \<Rightarrow> (string \<times> 'v) list \<Rightarrow> (string \<times> 'v) list" where
  "dict_merge d1 d2 = foldl (\<lambda>d (k, v). dict_set k v d) d1 d2"

text \<open>
  \<open>_parse_tags\<close>: the loop over the merged mapping. An error of \<open>escape\<close> that is no KeyError
  leaves the function; the KeyError of \<open>point['tags']\<close> is raised before the loop starts and
  is swallowed, so \<open>output\<close> is still empty then.
\<close>

fun tags_loop :: "(string \<times> scalar) list \<Rightarrow> string list \<Rightarrow> error + string list" where
  "tags_loop [] output = Inr output"
| "tags_loop ((k, v) # rest) output =
     (let k' = translate key_escape k in
      case snd (escape v tag_escape) of
        Inl e \<Rightarrow> Inl e
      | Inr v' \<Rightarrow>
          if v' = [] then tags_loop rest output
          else tags_loop rest (output @ [k' @ ''='' @ v']))"

definition parse_tags :: "point \<Rightarrow> (string \<times> scalar) list \<Rightarrow> error + string" where
  "parse_tags point extra_tags =
     (case point_tags point of
        None \<Rightarrow> Inr []
      | Some ts \<Rightarrow>
          (case tags_loop (dict_merge ts extra_tags) [] of
             Inl e \<Rightarrow> Inl e
           | Inr output \<Rightarrow> if output \<noteq> [] then Inr (join '','' output) else Inr []))"

text \<open>
  What \<open>_parse_timestamp\<close> reads from outside the point: whether pandas was imported, the
  constant \<open>time.timezone\<close> (seconds west of UTC of the local zone without daylight saving),
  the UTC offset in seconds the local zone has at a given wall-clock reading (which
  \<open>datetime.timestamp\<close> applies to a naive value), and the two text parsers.
\<close>

record env =
  pd :: bool
  timezone :: int
  local_utcoffset :: "int \<Rightarrow> int"
  parse_datetime :: "string \<Rightarrow> datetime option"
  Timestamp_text :: "string \<Rightarrow> error + int"

text \<open>
  \<open>dt.timestamp()\<close> is a float of seconds; here it is the exact number of microseconds
  (the float is exact to the microsecond for readings within a few centuries of the epoch):
  an aware value is its reading minus its offset, a naive value is read as local time.
  \<open>py_int\<close> is \<open>int()\<close> on such a number of seconds: it truncates toward zero.
\<close>

definition timestamp :: "env \<Rightarrow> datetime \<Rightarrow> int" where
  "timestamp e dt =
     (case tzinfo dt of
        None \<Rightarrow> (wall dt - local_utcoffset e (wall dt)) * 1000000 + int (microsecond dt)
      | Some off \<Rightarrow> (wall dt - off) * 1000000 + int (microsecond dt))"

definition py_int :: "int \<Rightarrow> int" where
  "py_int us = (if us < 0 then - ((- us) div 1000000) else us div 1000000)"

text \<open>\<open>pd.Timestamp(dt).value\<close>: nanoseconds since the epoch, a naive value read as UTC.\<close>

definition Timestamp_value :: "datetime \<Rightarrow> int" where
  "Timestamp_value dt =
     (wall dt - (case tzinfo dt of None \<Rightarrow> 0 | Some off \<Rightarrow> off)) * 10 ^ 9 + int (microsecond dt) * 1000"

definition invalid_datetime :: error where
  "invalid_datetime = ValueError ''Invalid datetime string''"

definition parse_timestamp :: "env \<Rightarrow> point \<Rightarrow> error + string" where
  "parse_timestamp e point =
     (case point_time point of
        None \<Rightarrow> Inr []
      | Some t \<Rightarrow>
          if pd e then
            (case t of
               TDateTime dt \<Rightarrow> Inr (str_int (Timestamp_value dt))
             | TText s \<Rightarrow> (case Timestamp_text e s of Inl err \<Rightarrow> Inl err | Inr v \<Rightarrow> Inr (str_int v)))
          else
            (case (case t of
                     TDateTime dt \<Rightarrow> Inr dt
                   | TText s \<Rightarrow> (case parse_datetime e s of
                                    None \<Rightarrow> Inl invalid_datetime
                                  | Some dt \<Rightarrow> Inr dt)) of
               Inl err \<Rightarrow> Inl err
             | Inr dt \<Rightarrow>
                 if tzinfo dt = None then
                   Inr (str_int (py_int (timestamp e dt - timezone e * 1000000) * 10 ^ 9
                                 + int (microsecond dt) * 1000))
                 else
                   Inr (str_int (py_int (timestamp e dt) * 10 ^ 9 + int (microsecond dt) * 1000))))"

text \<open>
  \<open>make_line\<close>: the tags are computed first, then the arguments of \<open>format\<close> from left to
  right; the first error raised is the outcome.
\<close>

definition make_line :: "env \<Rightarrow> point \<Rightarrow> scalar \<Rightarrow> (string \<times> scalar) list \<Rightarrow> error + string" where
  "make_line e point measurement extra_tags =
     (case parse_tags point extra_tags of
        Inl err \<Rightarrow> Inl err
      | Inr tgs \<Rightarrow>
          (case parse_measurement point measurement of
             Inl err \<Rightarrow> Inl err
           | Inr m \<Rightarrow>
               (case parse_fields point of
                  Inl err \<Rightarrow> Inl err
                | Inr f \<Rightarrow>
                    (case parse_timestamp e point of
                       Inl err \<Rightarrow> Inl err
                     | Inr t \<Rightarrow>
                         if tgs \<noteq> [] then Inr (m @ '','' @ tgs @ '' '' @ f @ '' '' @ t)
                         else Inr (m @ '' '' @ f @ '' '' @ t)))))"

section \<open>Encoding a DataFrame\<close>

text \<open>
  What \<open>parse_df\<close> reads of a DataFrame: whether its index is a \<open>DatetimeIndex\<close>, the column
  labels with the class of their dtype (\<open>df.dtypes\<close>), and the rows as \<open>itertuples\<close> yields
  them, the index entry as its nanosecond \<open>value\<close> and one cell per column. A cell is
  rendered by \<open>format\<close> as \<open>py_str\<close> gives it; NaN is the float whose text is \<open>nan\<close>.
  \<open>Dfloat\<close> is float64 (the only dtype whose type derives from Python's \<open>float\<close>) and
  \<open>Dother\<close> any dtype that is none of the named ones.
\<close>

datatype dtype = Dint | Dfloat | Dbool | Dcategory | Dobject | Dother

record dataframe =
  tb_datetime :: bool
  tb_dtypes :: "(string \<times> dtype) list"
  tb_rows :: "(int \<times> scalar list) list"

definition isnull :: "scalar \<Rightarrow> bool" where
  "isnull v = (v = PNone \<or> v = PFloat ''nan'')"

definition row_isnull :: "int \<times> scalar list \<Rightarrow> bool" where
  "row_isnull p = list_ex isnull (snd p)"

definition on_result :: "('a \<Rightarrow> 'b) \<Rightarrow> 'e + 'a \<Rightarrow> 'e + 'b" where
  "on_result f r = (case r of Inl err \<Rightarrow> Inl err | Inr x \<Rightarrow> Inr (f x))"

text \<open>
  The row formatter is built as source text and passed to \<open>eval\<close>, and the function it gives
  calls \<open>str.format\<close>. Python is modelled on the part of its syntax that the generated text
  stays in unless the caller's measurement, labels or extra tags bring more; past that part
  the value of \<open>eval\<close> is the parameter \<open>py_eval\<close> of \<open>parse_df\<close>.

  \<open>py_literal q\<close> is the value of a string literal quoted with \<open>q\<close>, given the text between
  the quotes: a doubled backslash is one backslash, an escaped quote is the quote, and a
  backslash before a character that starts no escape sequence stays. It is \<open>None\<close> where
  the text holds another escape sequence, a bare quote \<open>q\<close> (which ends the literal early), a
  line break, a carriage return or a NUL.
\<close>

definition creturn :: char where
  "creturn = CHR 0x0D"

definition nul :: char where
  "nul = CHR 0x00"

fun py_literal :: "char \<Rightarrow> string \<Rightarrow> string option" where
  "py_literal q [] = Some []"
| "py_literal q [c] =
     (if c = backslash \<or> c = q \<or> c = newline \<or> c = creturn \<or> c = nul then None else Some [c])"
| "py_literal q (c # d # rest) =
     (if c = backslash then
        (if d = backslash \<or> d = squote \<or> d = dquote then map_option ((#) d) (py_literal q rest)
         else if d \<in> set ''abfnrtvxNuU01234567'' \<or> d = newline \<or> d = creturn \<or> d = nul then None
         else map_option (\<lambda>t. c # d # t) (py_literal q rest))
      else if c = q \<or> c = newline \<or> c = creturn \<or> c = nul then None
      else map_option ((#) c) (py_literal q (d # rest)))"

text \<open>
  A format string of \<open>str.format\<close> as its pieces: \<open>{}\<close> is a field that takes the next
  positional argument, doubled braces are single braces, every other character is
  itself. \<open>format_pieces\<close> is \<open>None\<close> where the string holds any other brace. \<open>fill\<close>
  puts the arguments into the fields; arguments left over are ignored.
\<close>

datatype piece = Text char | Field

fun format_pieces :: "string \<Rightarrow> piece list option" where
  "format_pieces [] = Some []"
| "format_pieces [c] = (if c = CHR ''{'' \<or> c = CHR ''}'' then None else Some [Text c])"
| "format_pieces (c # d # rest) =
     (if c = CHR ''{'' then
        (if d = CHR ''{'' then map_option ((#) (Text c)) (format_pieces rest)
         else if d = CHR ''}'' then map_option ((#) Field) (format_pieces rest)
         else None)
      else if c = CHR ''}'' then
        (if d = CHR ''}'' then map_option ((#) (Text c)) (format_pieces rest) else None)
      else map_option ((#) (Text c)) (format_pieces (d # rest)))"

fun fill :: "piece list \<Rightarrow> string list \<Rightarrow> error + string" where
  "fill [] args = Inr []"
| "fill (Text c # ps) args = on_result ((#) c) (fill ps args)"
| "fill (Field # ps) [] = Inl (IndexError ''tuple index out of range'')"
| "fill (Field # ps) (a # args) = on_result ((@) a) (fill ps args)"

text \<open>
  The two lists \<open>tags\<close> and \<open>fields\<close> of \<open>parse_df\<close>: each entry is a piece of the format
  string and the source text of its argument, a string literal for an extra tag and
  \<open>p[i + 1]\<close> for column \<open>i\<close>.
\<close>

datatype arg = Literal string | P nat

text \<open>
  The loop over \<open>df.dtypes.items()\<close>. The test \<open>k in tag_columns\<close> is made on the escaped
  column label, while \<open>tag_columns\<close> holds the labels as given.
\<close>

fun columns_loop ::
  "string list \<Rightarrow> nat \<Rightarrow> (string \<times> dtype) list \<Rightarrow> (string \<times> arg) list \<times> (string \<times> arg) list
   \<Rightarrow> (string \<times> arg) list \<times> (string \<times> arg) list" where
  "columns_loop tag_columns i [] (tgs, flds) = (tgs, flds)"
| "columns_loop tag_columns i ((k, v) # rest) (tgs, flds) =
     (let k' = translate key_escape k in
      if k' \<in> set tag_columns then
        columns_loop tag_columns (Suc i) rest (tgs @ [(k' @ ''={}'', P i)], flds)
      else if v = Dint then
        columns_loop tag_columns (Suc i) rest (tgs, flds @ [(k' @ ''={}i'', P i)])
      else if v = Dfloat \<or> v = Dbool then
        columns_loop tag_columns (Suc i) rest (tgs, flds @ [(k' @ ''={}'', P i)])
      else
        columns_loop tag_columns (Suc i) rest
          (tgs, flds @ [(k' @ ''='' @ [dquote] @ ''{}'' @ [dquote], P i)]))"

fun extra_loop :: "(string \<times> scalar) list \<Rightarrow> (string \<times> arg) list \<Rightarrow> error + (string \<times> arg) list" where
  "extra_loop [] tgs = Inr tgs"
| "extra_loop ((k, v) # rest) tgs =
     (case snd (escape v key_escape) of
        Inl err \<Rightarrow> Inl err
      | Inr v' \<Rightarrow> extra_loop rest (tgs @ [(k @ ''={}'', Literal v')]))"

text \<open>
  The evaluated formatter: the pieces of the format string, and per argument either the
  constant an extra tag's literal evaluates to or the column to read. Calling it evaluates
  the arguments, the cells as \<open>format\<close> prints them and \<open>p[0].value\<close> last, and fills the
  format string.
\<close>

datatype operand = Const string | Column nat

fun eval_arg :: "arg \<Rightarrow> operand option" where
  "eval_arg (Literal t) = map_option Const (py_literal dquote t)"
| "eval_arg (P i) = Some (Column i)"

definition apply_f :: "piece list \<times> operand list \<Rightarrow> int \<times> scalar list \<Rightarrow> error + string" where
  "apply_f f p =
     (case collect (map (\<lambda>a. case a of
                           Const t \<Rightarrow> Inr t
                         | Column i \<Rightarrow> if i < length (snd p) then Inr (py_str (snd p ! i))
                                       else Inl (IndexError ''tuple index out of range''))
                      (snd f)) of
        Inl err \<Rightarrow> Inl err
      | Inr args \<Rightarrow> fill (fst f) (args @ [str_int (fst p)]))"

text \<open>
  \<open>make_replacements\<close>. The first pattern is an alternation of \<open>key="nan"\<close> for the object
  columns and \<open>key=nan\<close> for the others, built from the labels as given; the two sets are
  taken in column order here. The labels are not escaped for the regular expression, so
  the substitution of that pattern is the parameter \<open>re_sub\<close> of \<open>parse_df\<close> (pattern,
  text, result or the \<open>re.error\<close>). The two fixed patterns are \<open>sub_comma_runs\<close>, which
  puts one comma for every run of two or more, and \<open>sub_dangling\<close>, which puts one space
  for the leftmost of comma-space-comma, comma-space and space-comma.
\<close>

definition nan_pattern :: "dataframe \<Rightarrow> string" where
  "nan_pattern df =
     join ''|'' (map (\<lambda>(k, v). k @ ''='' @ [dquote] @ ''nan'' @ [dquote])
                   (filter (\<lambda>(k, v). v = Dobject) (tb_dtypes df))
                 @ map (\<lambda>(k, v). k @ ''=nan'') (filter (\<lambda>(k, v). v \<noteq> Dobject) (tb_dtypes df)))"

function sub_comma_runs :: "string \<Rightarrow> string" where
  "sub_comma_runs [] = []"
| "sub_comma_runs (c # rest) =
     (if c = CHR '','' then c # sub_comma_runs (dropWhile (\<lambda>x. x = CHR '','') rest)
      else c # sub_comma_runs rest)"
  by pat_completeness auto
termination
  by (relation "measure length") (auto simp: length_dropWhile_le less_Suc_eq_le)

fun sub_dangling :: "string \<Rightarrow> string" where
  "sub_dangling [] = []"
| "sub_dangling [a] = [a]"
| "sub_dangling [a, b] =
     (if (a = CHR '','' \<and> b = CHR '' '') \<or> (a = CHR '' '' \<and> b = CHR '','') then '' ''
      else a # sub_dangling [b])"
| "sub_dangling (a # b # c # rest) =
     (if a = CHR '','' \<and> b = CHR '' '' \<and> c = CHR '','' then CHR '' '' # sub_dangling rest
      else if (a = CHR '','' \<and> b = CHR '' '') \<or> (a = CHR '' '' \<and> b = CHR '','')
      then CHR '' '' # sub_dangling (c # rest)
      else a # sub_dangling (b # c # rest))"

definition replacements :: "(string \<Rightarrow> string \<Rightarrow> error + string) \<Rightarrow> dataframe \<Rightarrow> string \<Rightarrow> error + string" where
  "replacements re_sub df line =
     on_result (\<lambda>a. sub_dangling (sub_comma_runs a)) (re_sub (nan_pattern df) line)"

text \<open>
  \<open>parse_df\<close>, up to the list of lines that is joined with line breaks: the clean rows
  first and then the rows with a null, each of these passed through the replacements.
  \<open>source\<close> is the text given to \<open>eval\<close>; \<open>compile\<close> is its value where the text stays in
  the part of Python modelled above.
\<close>

definition not_datetime_index :: error where
  "not_datetime_index = ValueError ''DataFrame index is not DatetimeIndex''"

fun arg_text :: "arg \<Rightarrow> string" where
  "arg_text (Literal t) = [dquote] @ t @ [dquote]"
| "arg_text (P i) = ''p['' @ str_nat (Suc i) @ '']''"

definition source :: "string \<Rightarrow> string \<Rightarrow> (string \<times> arg) list \<Rightarrow> (string \<times> arg) list \<Rightarrow> string" where
  "source fmt_0 fmt_1 tgs flds =
     ''lambda p: '' @ [squote] @ fmt_0 @ '' '' @ fmt_1 @ '' {}'' @ [squote] @ ''.format(''
     @ join '','' (map (\<lambda>t. arg_text (snd t)) tgs) @ (if tgs \<noteq> [] then '','' else [])
     @ join '','' (map (\<lambda>t. arg_text (snd t)) flds) @ (if flds \<noteq> [] then '','' else [])
     @ '' p[0].value)''"

definition compile ::
  "string \<Rightarrow> string \<Rightarrow> (string \<times> arg) list \<Rightarrow> (string \<times> arg) list
   \<Rightarrow> (piece list \<times> operand list) option" where
  "compile fmt_0 fmt_1 tgs flds =
     (case py_literal squote (fmt_0 @ '' '' @ fmt_1 @ '' {}'') of
        None \<Rightarrow> None
      | Some fmt \<Rightarrow>
          (case format_pieces fmt of
             None \<Rightarrow> None
           | Some ps \<Rightarrow>
               (case those (map (\<lambda>t. eval_arg (snd t)) (tgs @ flds)) of
                  None \<Rightarrow> None
                | Some ops \<Rightarrow> Some (ps, ops))))"

definition make_f ::
  "(string \<Rightarrow> error + (int \<times> scalar list \<Rightarrow> error + string)) \<Rightarrow> dataframe \<Rightarrow> scalar \<Rightarrow> string list
   \<Rightarrow> (string \<times> scalar) list \<Rightarrow> error + (int \<times> scalar list \<Rightarrow> error + string)" where
  "make_f py_eval df measurement tag_columns extra_tags =
     (case extra_loop extra_tags [] of
        Inl err \<Rightarrow> Inl err
      | Inr tgs0 \<Rightarrow>
          (let tag_columns' = tag_columns @ map fst (filter (\<lambda>(k, v). v = Dcategory) (tb_dtypes df));
               (tgs, flds) = columns_loop tag_columns' 0 (tb_dtypes df) (tgs0, []);
               fmt_0 = py_str measurement @ (if tgs \<noteq> [] then '','' else []) @ join '','' (map fst tgs);
               fmt_1 = join '','' (map fst flds)
           in case compile fmt_0 fmt_1 tgs flds of
                Some f \<Rightarrow> Inr (apply_f f)
              | None \<Rightarrow> py_eval (source fmt_0 fmt_1 tgs flds)))"

definition parse_df_lines ::
  "(string \<Rightarrow> error + (int \<times> scalar list \<Rightarrow> error + string)) \<Rightarrow> (string \<Rightarrow> string \<Rightarrow> error + string)
   \<Rightarrow> dataframe \<Rightarrow> scalar \<Rightarrow> string list \<Rightarrow> (string \<times> scalar) list \<Rightarrow> error + string list" where
  "parse_df_lines py_eval re_sub df measurement tag_columns extra_tags =
     (if \<not> tb_datetime df then Inl not_datetime_index
      else
        (case make_f py_eval df measurement tag_columns extra_tags of
           Inl err \<Rightarrow> Inl err
         | Inr f \<Rightarrow>
             if list_ex row_isnull (tb_rows df) then
               collect (map f (filter (\<lambda>p. \<not> row_isnull p) (tb_rows df))
                        @ map (\<lambda>p. case f p of
                                     Inl err \<Rightarrow> Inl err
                                   | Inr line \<Rightarrow> replacements re_sub df line)
                            (filter row_isnull (tb_rows df)))
             else collect (map f (tb_rows df))))"

definition parse_df ::
  "(string \<Rightarrow> error + (int \<times> scalar list \<Rightarrow> error + string)) \<Rightarrow> (string \<Rightarrow> string \<Rightarrow> error + string)
   \<Rightarrow> dataframe \<Rightarrow> scalar \<Rightarrow> string list \<Rightarrow> (string \<times> scalar) list \<Rightarrow> error + string" where
  "parse_df py_eval re_sub df measurement tag_columns extra_tags =
     on_result (join [newline])
       (parse_df_lines py_eval re_sub df measurement tag_columns extra_tags)"

text \<open>Whether a text has the character \<open>a\<close> directly followed by \<open>b\<close>.\<close>

fun has_pair :: "char \<Rightarrow> char \<Rightarrow> string \<Rightarrow> bool" where
  "has_pair a b (x # y # rest) = ((x = a \<and> y = b) \<or> has_pair a b (y # rest))"
| "has_pair a b rest = False"

text \<open>
  A line without dangling delimiters: no two commas in a row and no comma next to a space.
\<close>

definition delimiter_clean :: "string \<Rightarrow> bool" where
  "delimiter_clean l =
     (\<not> has_pair CHR '','' CHR '','' l \<and> \<not> has_pair CHR '','' CHR '' '' l
      \<and> \<not> has_pair CHR '' '' CHR '','' l)"

text \<open>
  What a label or an extra tag value reads as once it has been escaped with \<open>key_escape\<close>
  and the literal holding it has been evaluated: the doubled backslash is one again, the
  backslash before a comma, a space or an equals sign stays, and a line break is gone.
\<close>

definition literal_escape :: table where
  "literal_escape = [(CHR '','', [backslash, CHR '','']), (CHR '' '', [backslash, CHR '' '']),
     (CHR ''='', [backslash, CHR ''='']), (newline, [])]"

text \<open>
  The texts that stay in the part of Python modelled: \<open>literal_safe q\<close> for a text that is
  escaped and put between quotes \<open>q\<close>, \<open>format_safe\<close> for a text that ends up in the format
  string, \<open>verbatim\<close> for a text put into the format string as it is. \<open>plain_inputs\<close> asks
  this of the measurement, the extra tags and the column labels.
\<close>

definition literal_safe :: "char \<Rightarrow> string \<Rightarrow> bool" where
  "literal_safe q t = (\<forall>c \<in> set t. c \<noteq> q \<and> c \<noteq> creturn \<and> c \<noteq> nul)"

definition format_safe :: "string \<Rightarrow> bool" where
  "format_safe t = (\<forall>c \<in> set t. c \<noteq> CHR ''{'' \<and> c \<noteq> CHR ''}'')"

definition verbatim :: "string \<Rightarrow> bool" where
  "verbatim t = (literal_safe squote t \<and> format_safe t \<and> backslash \<notin> set t \<and> newline \<notin> set t)"

definition plain_inputs :: "dataframe \<Rightarrow> scalar \<Rightarrow> (string \<times> scalar) list \<Rightarrow> bool" where
  "plain_inputs df measurement extra_tags =
     (verbatim (py_str measurement)
      \<and> (\<forall>(k, v) \<in> set extra_tags. verbatim k \<and> literal_safe dquote (py_str v))
      \<and> (\<forall>(k, v) \<in> set (tb_dtypes df). literal_safe squote k \<and> format_safe k))"

text \<open>
  The line of a row as a template: texts put as they are, labels, and slots for the
  arguments. \<open>template\<close> is the measurement, for every extra tag and then for every tag
  column a comma, the key, an equals sign and the value, a space, and the fields separated
  by commas, each the label, an equals sign and the cell, with \<open>i\<close> after an integer and
  between double quotes for a column that is neither integer, float nor boolean.
  \<open>render\<close> is the template with the labels as they read, the cells of the row as
  \<open>format\<close> prints them, a space and the timestamp.
\<close>

datatype item = Verbatim string | Label string | Slot operand

definition is_tag :: "dataframe \<Rightarrow> string list \<Rightarrow> string \<Rightarrow> bool" where
  "is_tag df tag_columns k =
     (translate key_escape k
        \<in> set (tag_columns @ map fst (filter (\<lambda>(k, v). v = Dcategory) (tb_dtypes df))))"

fun tag_items :: "nat \<times> string \<times> dtype \<Rightarrow> item list" where
  "tag_items (j, k, v) = [Verbatim '','', Label k, Verbatim ''='', Slot (Column j)]"

fun field_items :: "nat \<times> string \<times> dtype \<Rightarrow> item list" where
  "field_items (j, k, v) =
     (if v = Dint then [Label k, Verbatim ''='', Slot (Column j), Verbatim ''i'']
      else if v = Dfloat \<or> v = Dbool then [Label k, Verbatim ''='', Slot (Column j)]
      else [Label k, Verbatim (''='' @ [dquote]), Slot (Column j), Verbatim [dquote]])"

fun separated :: "item list list \<Rightarrow> item list" where
  "separated [] = []"
| "separated [x] = x"
| "separated (x # y # ys) = x @ Verbatim '','' # separated (y # ys)"

definition template :: "dataframe \<Rightarrow> scalar \<Rightarrow> string list \<Rightarrow> (string \<times> scalar) list \<Rightarrow> item list" where
  "template df measurement tag_columns extra_tags =
     Verbatim (py_str measurement)
     # concat (map (\<lambda>(k, v). [Verbatim '','', Verbatim k, Verbatim ''='',
                               Slot (Const (translate literal_escape (py_str v)))]) extra_tags)
     @ concat (map tag_items
                 (filter (\<lambda>(j, k, v). is_tag df tag_columns k) (enumerate 0 (tb_dtypes df))))
     @ Verbatim '' ''
     # separated (map field_items
                    (filter (\<lambda>(j, k, v). \<not> is_tag df tag_columns k) (enumerate 0 (tb_dtypes df))))"

fun operand_value :: "int \<times> scalar list \<Rightarrow> operand \<Rightarrow> string" where
  "operand_value p (Const t) = t"
| "operand_value p (Column j) = py_str (snd p ! j)"

fun item_out :: "int \<times> scalar list \<Rightarrow> item \<Rightarrow> string" where
  "item_out p (Verbatim t) = t"
| "item_out p (Label k) = translate literal_escape k"
| "item_out p (Slot a) = operand_value p a"

definition render ::
  "dataframe \<Rightarrow> scalar \<Rightarrow> string list \<Rightarrow> (string \<times> scalar) list \<Rightarrow> int \<times> scalar list \<Rightarrow> string" where
  "render df measurement tag_columns extra_tags p =
     concat (map (item_out p) (template df measurement tag_columns extra_tags))
     @ '' '' @ str_int (fst p)"

text \<open>The source text, the value and the pieces of an item, and the operand of a slot.\<close>

fun item_source :: "item \<Rightarrow> string" where
  "item_source (Verbatim t) = t"
| "item_source (Label k) = translate key_escape k"
| "item_source (Slot a) = ''{}''"

fun item_value :: "item \<Rightarrow> string" where
  "item_value (Verbatim t) = t"
| "item_value (Label k) = translate literal_escape k"
| "item_value (Slot a) = ''{}''"

fun item_pieces :: "item \<Rightarrow> piece list" where
  "item_pieces (Slot a) = [Field]"
| "item_pieces i = map Text (item_value i)"

fun item_slots :: "item \<Rightarrow> operand list" where
  "item_slots (Slot a) = [a]"
| "item_slots i = []"

fun item_ok :: "item \<Rightarrow> bool" where
  "item_ok (Verbatim t) = (literal_safe squote t \<and> format_safe t \<and> backslash \<notin> set t \<and> newline \<notin> set t)"
| "item_ok (Label k) = (literal_safe squote k \<and> format_safe k)"
| "item_ok (Slot a) = True"

text \<open>
  The substitution of the examples: for a pattern that is an alternation of literal texts
  (labels without regular-expression metacharacters), every leftmost occurrence of the
  first alternative that matches is removed.
\<close>

fun split_on :: "char \<Rightarrow> string \<Rightarrow> string list" where
  "split_on c [] = [[]]"
| "split_on c (x # xs) =
     (if x = c then [] # split_on c xs
      else (case split_on c xs of [] \<Rightarrow> [[x]] | y # ys \<Rightarrow> (x # y) # ys))"

fun strip_first :: "string list \<Rightarrow> string \<Rightarrow> string option" where
  "strip_first [] s = None"
| "strip_first (t # ts) s =
     (if t \<noteq> [] \<and> take (length t) s = t then Some (drop (length t) s) else strip_first ts s)"

function literal_strip :: "string list \<Rightarrow> string \<Rightarrow> string" where
  "literal_strip ts [] = []"
| "literal_strip ts (c # s) =
     (case strip_first ts (c # s) of
        Some r \<Rightarrow> literal_strip ts r
      | None \<Rightarrow> c # literal_strip ts s)"
  by pat_completeness auto
termination
proof -
  have shorter: "strip_first ts s = Some r \<Longrightarrow> length r < length s"
    for ts :: "string list" and s r
    by (induction ts) (auto split: if_splits simp: take_eq_Nil2 intro!: diff_less)
  show ?thesis
    by (relation "measure (\<lambda>(ts, s). length s)") (auto dest: shorter)
qed

definition literal_sub :: "string \<Rightarrow> string \<Rightarrow> error + string" where
  "literal_sub pattern text = Inr (literal_strip (split_on CHR ''|'' pattern) text)"

text \<open>An \<open>eval\<close> for the examples, whose sources all stay in the part modelled.\<close>

definition no_eval :: "string \<Rightarrow> error + (int \<times> scalar list \<Rightarrow> error + string)" where
  "no_eval src = Inl (SyntaxError ''invalid syntax'')"

text \<open>
  Tables of the examples: one with nulls in a tag and in a field, and one of a single row
  whose text cell holds a line break.
\<close>

definition weather :: dataframe where
  "weather = \<lparr>tb_datetime = True,
     tb_dtypes = [(''city'', Dcategory), (''temp'', Dfloat), (''hits'', Dint)],
     tb_rows = [(10, [PStr ''oslo'', PFloat ''1.5'', PInt 3]),
                (20, [PFloat ''nan'', PFloat ''2.5'', PInt 4]),
                (30, [PStr ''rome'', PFloat ''nan'', PInt 5])]\<rparr>"

text \<open>The lines \<open>parse_df\<close> gives for \<open>weather\<close> with the extra tag \<open>dc\<close> set to \<open>eu west\<close>.\<close>

definition weather_lines :: "string list" where
  "weather_lines =
     [''m,dc=eu'' @ [backslash] @ '' west,city=oslo temp=1.5,hits=3i 10'',
      ''m,dc=eu'' @ [backslash] @ '' west temp=2.5,hits=4i 20'',
      ''m,dc=eu'' @ [backslash] @ '' west,city=rome hits=5i 30'']"

definition remarks :: dataframe where
  "remarks = \<lparr>tb_datetime = True, tb_dtypes = [(''note'', Dobject)],
     tb_rows = [(10, [PStr (''first'' @ [newline] @ ''second'')])]\<rparr>"

section \<open>Dispatching on the input\<close>

text \<open>
  The inputs \<open>parse_data\<close> tells apart: bytes, text, a DataFrame, a mapping, any other
  iterable with its elements, and any other object. Without pandas the DataFrame test is
  not made, and a DataFrame, being iterable, would be walked over its column labels.
\<close>

datatype data =
    DBytes string
  | DStr string
  | DFrame dataframe
  | DDict point
  | DIter "data list"
  | DOther




text \<open>
  The token the field rule gives one entry of the \<open>fields\<close> mapping, stated by type: nothing
  for \<open>None\<close>, the bare Python text \<open>True\<close> or \<open>False\<close> for a boolean, the decimal digits
  and a trailing \<open>i\<close> for an integer, the text between double quotes under the field-string
  profile for a text, and the bare text of any other value.
\<close>

fun field_token :: "string \<times> scalar \<Rightarrow> string option" where
  "field_token (k, PNone) = None"
| "field_token (k, PBool b) =
     Some (translate key_escape k @ ''='' @ (if b then ''True'' else ''False''))"
| "field_token (k, PInt i) = Some (translate key_escape k @ ''='' @ str_int i @ ''i'')"
| "field_token (k, PStr s) =
     Some (translate key_escape k @ ''='' @ [dquote] @ translate str_escape s @ [dquote])"
| "field_token (k, v) = Some (translate key_escape k @ ''='' @ py_str v)"

text \<open>
  Inputs of the examples below: a machine without pandas whose local zone is UTC, and one
  whose local zone is Europe/Berlin in 2018 (\<open>time.timezone\<close> is -3600, and the offset is
  two hours for the readings from 25 March 03:00 to 28 October 02:00, one hour otherwise).
\<close>

definition utc_env :: env where
  "utc_env = \<lparr>pd = False, timezone = 0, local_utcoffset = (\<lambda>w. 0),
     parse_datetime = (\<lambda>s. None), Timestamp_text = (\<lambda>s. Inl invalid_datetime)\<rparr>"

definition berlin_env :: env where
  "berlin_env = \<lparr>pd = False, timezone = - 3600,
     local_utcoffset = (\<lambda>w. if 1521946800 \<le> w \<and> w < 1540692000 then 7200 else 3600),
     parse_datetime = (\<lambda>s. None), Timestamp_text = (\<lambda>s. Inl invalid_datetime)\<rparr>"

definition no_point :: point where
  "no_point = \<lparr>point_measurement = None, point_tags = None, point_fields = None,
     point_time = None\<rparr>"

section \<open>Decoding a query response\<close>

text \<open>
  A response is the JSON document of a query: a list of statements under \<open>results\<close>, each
  with an optional list of series; a series has up to four entries. A cell is a JSON value;
  a float is carried by its text.
\<close>

datatype cell = CNull | CBool bool | CInt int | CFloat string | CStr string

record series =
  series_name :: "string option"
  series_tags :: "(string \<times> string) list option"
  series_columns :: "string list option"
  series_values :: "cell list list option"

type_synonym statement = "series list option"

type_synonym response = "statement list option"

text \<open>
  What \<open>make_df\<close> uses of a pandas DataFrame: its index, which is a \<open>DatetimeIndex\<close> of
  nanosecond timestamps or some other index carried by its labels (a \<open>RangeIndex\<close> has the
  labels 0, 1, ...), its column labels, its rows, and the columns cast to a categorical
  type with their categories.
\<close>

datatype index_label = Stamp int | Pos nat

datatype pd_index = DatetimeIndex "int list" | PlainIndex "index_label list"

record frame =
  df_index :: pd_index
  df_columns :: "string list"
  df_rows :: "cell list list"
  df_categorical :: "(string \<times> string list) list"

definition RangeIndex :: "nat \<Rightarrow> pd_index" where
  "RangeIndex n = PlainIndex (map Pos [0..<n])"

type_synonym identity = "string \<times> (string \<times> string) list"

text \<open>
  \<open>pd.DataFrame(values, columns=columns)\<close>: short rows are padded with nulls, and the
  longest row must have as many cells as there are columns.
\<close>

definition DataFrame :: "cell list list \<Rightarrow> string list \<Rightarrow> error + frame" where
  "DataFrame vals cols =
     (if \<exists>r \<in> set vals. length cols < length r \<or> (\<forall>r' \<in> set vals. length r' < length cols)
      then Inl (ValueError ''columns passed do not match the data'')
      else Inr \<lparr>df_index = RangeIndex (length vals), df_columns = cols,
                df_rows = map (\<lambda>r. r @ replicate (length cols - length r) CNull) vals,
                df_categorical = []\<rparr>)"

definition get_column :: "string \<Rightarrow> frame \<Rightarrow> cell list" where
  "get_column k df =
     map (\<lambda>r. case map_of (zip (df_columns df) r) k of None \<Rightarrow> CNull | Some x \<Rightarrow> x) (df_rows df)"

definition drop_column :: "string \<Rightarrow> frame \<Rightarrow> frame" where
  "drop_column k df =
     df\<lparr>df_columns := filter (\<lambda>c. c \<noteq> k) (df_columns df),
        df_rows := map (\<lambda>r. map snd (filter (\<lambda>(c, x). c \<noteq> k) (zip (df_columns df) r))) (df_rows df)\<rparr>"

text \<open>\<open>df[k] = v\<close>: an existing column is overwritten, a new one is appended.\<close>

definition set_column :: "string \<Rightarrow> cell \<Rightarrow> frame \<Rightarrow> frame" where
  "set_column k v df =
     (if k \<in> set (df_columns df)
      then df\<lparr>df_rows := map (\<lambda>r. map (\<lambda>(c, x). if c = k then v else x) (zip (df_columns df) r))
                            (df_rows df)\<rparr>
      else df\<lparr>df_columns := df_columns df @ [k], df_rows := map (\<lambda>r. r @ [v]) (df_rows df)\<rparr>)"

text \<open>
  \<open>maker\<close>. The parameter \<open>to_datetime\<close> stands for \<open>pd.to_datetime\<close> on the \<open>time\<close> column
  followed by \<open>tz_localize('UTC')\<close>: the timestamps in nanoseconds, or the error either
  raises. With two columns labelled \<open>time\<close> the selection is a frame, which
  \<open>pd.to_datetime\<close> rejects. The attribute \<open>df.name\<close> plays no role afterwards.
\<close>

definition maker :: "(cell list \<Rightarrow> error + int list) \<Rightarrow> series \<Rightarrow> error + frame" where
  "maker to_datetime s =
     (case series_values s of
        None \<Rightarrow> Inl (KeyError ''values'')
      | Some vals \<Rightarrow>
          (case series_columns s of
             None \<Rightarrow> Inl (KeyError ''columns'')
           | Some cols \<Rightarrow>
               (case DataFrame vals cols of
                  Inl err \<Rightarrow> Inl err
                | Inr df \<Rightarrow>
                    if ''time'' \<notin> set (df_columns df) then Inr df
                    else if 1 < count_list (df_columns df) ''time''
                    then Inl (ValueError ''to assemble mappings requires year, month, day'')
                    else
                      (case to_datetime (get_column ''time'' df) of
                         Inl err \<Rightarrow> Inl err
                       | Inr ts \<Rightarrow>
                           Inr (foldl (\<lambda>d (k, v). set_column k (CStr v) d)
                                  ((drop_column ''time'' df)\<lparr>df_index := DatetimeIndex ts\<rparr>)
                                  (case series_tags s of None \<Rightarrow> [] | Some tgs \<Rightarrow> tgs))))))"

text \<open>
  \<open>drop_zero_index\<close>: \<open>all\<close> over an empty index holds, and \<open>reset_index(drop=True)\<close> puts a
  \<open>RangeIndex\<close> over the rows.
\<close>

definition drop_zero_index :: "frame \<Rightarrow> frame" where
  "drop_zero_index df =
     (case df_index df of
        DatetimeIndex ts \<Rightarrow>
          if \<forall>i \<in> set ts. i = 0 then df\<lparr>df_index := RangeIndex (length (df_rows df))\<rparr> else df
      | PlainIndex ls \<Rightarrow> df)"

text \<open>
  Parsing: one pair of identity key and frame per series, in the order of the response. The
  key is \<open>(series['name'], tuple(series.get('tags', {}).items()))\<close>, the tags in the
  order of the series' own mapping; it is evaluated before \<open>maker\<close>.
\<close>

definition parse_series :: "(cell list \<Rightarrow> error + int list) \<Rightarrow> series \<Rightarrow> error + identity \<times> frame" where
  "parse_series to_datetime s =
     (case series_name s of
        None \<Rightarrow> Inl (KeyError ''name'')
      | Some n \<Rightarrow>
          (case maker to_datetime s of
             Inl err \<Rightarrow> Inl err
           | Inr df \<Rightarrow> Inr ((n, case series_tags s of None \<Rightarrow> [] | Some tgs \<Rightarrow> tgs), df)))"

definition parsing :: "(cell list \<Rightarrow> error + int list) \<Rightarrow> response \<Rightarrow> error + (identity \<times> frame) list" where
  "parsing to_datetime resp =
     (case resp of
        None \<Rightarrow> Inl (KeyError ''results'')
      | Some results \<Rightarrow>
          collect (map (parse_series to_datetime)
                     (concat (map (\<lambda>st. case st of None \<Rightarrow> [] | Some ss \<Rightarrow> ss) results))))"

text \<open>
  Concatenation: the stable sort by key, the \<open>defaultdict\<close> filled in that order (a new key is
  appended, a known key gets the frame at the end of its list), and \<open>pd.concat\<close> of each
  list: the union of the columns in order of first appearance, every row aligned to it with
  nulls for the columns its frame lacks, and a \<open>DatetimeIndex\<close> only if every frame has one.
\<close>

fun dict_append :: "identity \<Rightarrow> frame \<Rightarrow> (identity \<times> frame list) list \<Rightarrow> (identity \<times> frame list) list" where
  "dict_append k df [] = [(k, [df])]"
| "dict_append k df ((k', dfs) # rest) =
     (if k' = k then (k', dfs @ [df]) # rest else (k', dfs) # dict_append k df rest)"

definition grouping :: "(identity \<times> frame) list \<Rightarrow> (identity \<times> frame list) list" where
  "grouping df_list = foldl (\<lambda>d (k, df). dict_append k df d) [] (sort_key fst df_list)"

definition align :: "string list \<Rightarrow> string list \<Rightarrow> cell list \<Rightarrow> cell list" where
  "align all_cols cols row =
     map (\<lambda>c. case map_of (zip cols row) c of None \<Rightarrow> CNull | Some x \<Rightarrow> x) all_cols"

fun index_labels :: "pd_index \<Rightarrow> index_label list" where
  "index_labels (DatetimeIndex ts) = map Stamp ts"
| "index_labels (PlainIndex ls) = ls"

fun index_stamps :: "pd_index \<Rightarrow> int list option" where
  "index_stamps (DatetimeIndex ts) = Some ts"
| "index_stamps (PlainIndex ls) = None"

definition concat_index :: "pd_index list \<Rightarrow> pd_index" where
  "concat_index idxs =
     (if list_all (\<lambda>i. index_stamps i \<noteq> None) idxs
      then DatetimeIndex (concat (map (\<lambda>i. case index_stamps i of None \<Rightarrow> [] | Some ts \<Rightarrow> ts) idxs))
      else PlainIndex (concat (map index_labels idxs)))"

definition pd_concat :: "frame list \<Rightarrow> frame" where
  "pd_concat dfs =
     \<lparr>df_index = concat_index (map df_index dfs),
      df_columns = remdups (concat (map df_columns dfs)),
      df_rows = concat (map (\<lambda>df. map (align (remdups (concat (map df_columns dfs))) (df_columns df))
                                     (df_rows df)) dfs),
      df_categorical = []\<rparr>"

definition concatenation :: "(identity \<times> frame) list \<Rightarrow> (identity \<times> frame) list" where
  "concatenation df_list = map (\<lambda>(k, v). (k, pd_concat v)) (grouping df_list)"

text \<open>
  Post-processing: the zero index is dropped, then, when the cache knows the series name,
  each cached column the frame has is cast to the categorical type; a value outside the
  categories becomes null.
\<close>

type_synonym tag_cache = "(string \<times> (string \<times> string list) list) list option"

definition astype_category :: "string \<Rightarrow> string list \<Rightarrow> frame \<Rightarrow> frame" where
  "astype_category col cats df =
     df\<lparr>df_rows := map (\<lambda>r. map (\<lambda>(c, x). if c = col
                                           then (case x of CStr t \<Rightarrow> if t \<in> set cats then x else CNull
                                                 | _ \<Rightarrow> CNull)
                                           else x)
                               (zip (df_columns df) r)) (df_rows df),
        df_categorical := (col, cats) # filter (\<lambda>p. fst p \<noteq> col) (df_categorical df)\<rparr>"

definition post_process :: "tag_cache \<Rightarrow> identity \<times> frame \<Rightarrow> identity \<times> frame" where
  "post_process cache kd =
     (let name = fst (fst kd); df = drop_zero_index (snd kd) in
      case cache of
        None \<Rightarrow> (fst kd, df)
      | Some tc \<Rightarrow>
          (case map_of tc name of
             None \<Rightarrow> (fst kd, df)
           | Some cols \<Rightarrow>
               (fst kd, foldl (\<lambda>d (col, tgs). if col \<notin> set (df_columns d) then d
                                              else astype_category col tgs d) df cols)))"

datatype decoded = Table frame | Tables "(identity \<times> frame) list"

definition make_dfs :: "(cell list \<Rightarrow> error + int list) \<Rightarrow> response \<Rightarrow> tag_cache \<Rightarrow> error + (identity \<times> frame) list" where
  "make_dfs to_datetime resp cache =
     (case parsing to_datetime resp of
        Inl err \<Rightarrow> Inl err
      | Inr df_list \<Rightarrow> Inr (map (post_process cache) (concatenation df_list)))"

definition make_df :: "(cell list \<Rightarrow> error + int list) \<Rightarrow> response \<Rightarrow> tag_cache \<Rightarrow> error + decoded" where
  "make_df to_datetime resp cache =
     (case make_dfs to_datetime resp cache of
        Inl err \<Rightarrow> Inl err
      | Inr dfs \<Rightarrow> (case dfs of [kd] \<Rightarrow> Inr (Table (snd kd)) | _ \<Rightarrow> Inr (Tables dfs)))"

fun tables_of :: "decoded \<Rightarrow> frame list" where
  "tables_of (Table df) = [df]"
| "tables_of (Tables dfs) = map snd dfs"










text \<open>The timestamp parser of the examples: integer cells are nanoseconds since the epoch.\<close>

definition epoch_ns :: "cell list \<Rightarrow> error + int list" where
  "epoch_ns cells =
     collect (map (\<lambda>x. case x of CInt n \<Rightarrow> Inr n | _ \<Rightarrow> Inl (TypeError ''not an integer timestamp''))
                cells)"

text \<open>A series without real timestamps, as a SHOW query returns it.\<close>

definition zero_series :: series where
  "zero_series = \<lparr>series_name = Some ''databases'', series_tags = None,
     series_columns = Some [''time'', ''name''],
     series_values = Some [[CInt 0, CStr ''db0''], [CInt 0, CStr ''db1'']]\<rparr>"





section \<open>Properties of the point encoder\<close>

lemma fields_loop_tokens: "fields_loop fs acc = acc @ List.map_filter field_token fs"
proof (induction fs arbitrary: acc)
  case Nil
  show ?case by simp
next
  case (Cons kv fs)
  obtain k v where kv: "kv = (k, v)" by (cases kv)
  show ?case unfolding kv
    by (cases v) (simp_all add: Cons.IH)
qed

text \<open>
  C1, as the code has it: \<open>_parse_fields\<close> renders every field by type in mapping order and
  joins the tokens with commas. A boolean is rendered bare as Python prints it, \<open>key=True\<close> or
  \<open>key=False\<close>; an integer as \<open>key=<int>i\<close>; a text between double quotes under the
  field-string escape profile; \<open>None\<close> gives no token; any other value is rendered bare.
\<close>

theorem parse_fields_by_type:
  "parse_fields (point\<lparr>point_fields := Some fs\<rparr>)
     = Inr (join '','' (List.map_filter field_token fs))"
  by (simp add: parse_fields_def fields_loop_tokens)

text \<open>
  C1 as the specification states it fails on a boolean: the field \<open>idle: True\<close> is rendered
  \<open>idle=True\<close>, not \<open>idle=true\<close>.
\<close>

theorem parse_fields_bool_counterexample:
  "parse_fields (no_point\<lparr>point_fields := Some [(''idle'', PBool True)]\<rparr>) = Inr ''idle=True''
   \<and> parse_fields (no_point\<lparr>point_fields := Some [(''idle'', PBool True)]\<rparr>) \<noteq> Inr ''idle=true''"
  by (simp add: parse_fields_def no_point_def translate_def key_escape_def backslash_def newline_def)

lemma make_line_tagless:
  "parse_tags point extra_tags = Inr [] \<Longrightarrow>
   make_line e point measurement extra_tags =
     (case parse_measurement point measurement of
        Inl err \<Rightarrow> Inl err
      | Inr m \<Rightarrow>
          (case parse_fields point of
             Inl err \<Rightarrow> Inl err
           | Inr f \<Rightarrow>
               (case parse_timestamp e point of
                  Inl err \<Rightarrow> Inl err
                | Inr t \<Rightarrow> Inr (m @ '' '' @ f @ '' '' @ t))))"
  by (simp add: make_line_def split: sum.splits)

text \<open>
  C3, as the code has it: for a point without a \<open>time\<close> entry the timestamp text is empty,
  but the format string keeps the space before it, so the line is the measurement, the tag
  segment if any, a space, the field segment and one trailing space.
\<close>

theorem make_line_without_time:
  assumes "point_time point = None"
    and "make_line e point measurement extra_tags = Inr line"
  shows "\<exists>m tgs f. parse_measurement point measurement = Inr m
           \<and> parse_tags point extra_tags = Inr tgs
           \<and> parse_fields point = Inr f
           \<and> line = m @ (if tgs = [] then [] else '','' @ tgs) @ '' '' @ f @ '' ''"
  using assms
  by (auto simp: make_line_def parse_timestamp_def split: sum.splits if_splits)

theorem make_line_without_time_witness:
  "\<exists>m tgs f.
     parse_measurement (no_point\<lparr>point_fields := Some [(''value'', PNone), (''count'', PInt 3)]\<rparr>)
       (PStr ''m'') = Inr m
     \<and> parse_tags (no_point\<lparr>point_fields := Some [(''value'', PNone), (''count'', PInt 3)]\<rparr>) []
         = Inr tgs
     \<and> parse_fields (no_point\<lparr>point_fields := Some [(''value'', PNone), (''count'', PInt 3)]\<rparr>)
         = Inr f
     \<and> ''m count=3i '' = m @ (if tgs = [] then [] else '','' @ tgs) @ '' '' @ f @ '' ''"
  using make_line_without_time
    [of "no_point\<lparr>point_fields := Some [(''value'', PNone), (''count'', PInt 3)]\<rparr>"
        utc_env "PStr ''m''" "[]" "''m count=3i ''"]
  by (simp add: make_line_def parse_tags_def parse_measurement_def parse_fields_def
      parse_timestamp_def no_point_def translate_def key_escape_def measurement_escape_def
      backslash_def newline_def str_int_def str_nat.simps digit_def)

text \<open>
  C3 as the specification states it fails on its own example: the point without tags and
  time and with the fields \<open>value: None, count: 3\<close> encodes to \<open>m count=3i\<close> followed by a
  space, not to a line that ends right after the last field token.
\<close>

theorem make_line_no_time_counterexample:
  "make_line utc_env (no_point\<lparr>point_fields := Some [(''value'', PNone), (''count'', PInt 3)]\<rparr>)
     (PStr ''m'') [] = Inr ''m count=3i ''
   \<and> make_line utc_env (no_point\<lparr>point_fields := Some [(''value'', PNone), (''count'', PInt 3)]\<rparr>)
     (PStr ''m'') [] \<noteq> Inr ''m count=3i''"
  by (simp add: make_line_def parse_tags_def parse_measurement_def parse_fields_def
      parse_timestamp_def no_point_def translate_def key_escape_def measurement_escape_def
      backslash_def newline_def str_int_def str_nat.simps digit_def)

text \<open>
  C4 at a null tag value: \<open>escape\<close> turns \<open>None\<close> into the text \<open>None\<close> before the blank test
  of \<open>_parse_tags\<close> sees it, so the tag is emitted as \<open>a=None\<close>; the blank tag of the
  specification's example is dropped.
\<close>

theorem parse_tags_null_value:
  "parse_tags (no_point\<lparr>point_tags := Some [(''a'', PNone), (''b'', PStr ''x'')]\<rparr>) []
     = Inr ''a=None,b=x''
   \<and> parse_tags (no_point\<lparr>point_tags := Some [(''a'', PStr []), (''b'', PStr ''x'')]\<rparr>) []
     = Inr ''b=x''"
  by (simp add: parse_tags_def dict_merge_def no_point_def translate_def key_escape_def
      tag_escape_def backslash_def newline_def)

text \<open>
  C9 at a \<open>bytes\<close> value: its own \<open>translate\<close> method rejects the mapping table with a
  TypeError, which the handler for AttributeError does not catch, so \<open>escape\<close> raises and
  issues no warning, where the handler is there to warn and go on with \<open>str()\<close>. On the
  path the handler does take, the text is escaped with \<open>tag_escape\<close> whatever pattern was
  passed: under \<open>measurement_escape\<close> an equals sign of a text stays, that of any other
  value gets a backslash.
\<close>

theorem escape_bytes_raises:
  "escape (PBytes (''b'' @ [squote] @ ''x'' @ [squote])) tag_escape
     = ([], Inl bytes_translate_error)
   \<and> escape (PObj ''a=b'') measurement_escape
     = ([non_string_warning], Inr (''a'' @ [backslash] @ ''=b''))
   \<and> escape (PStr ''a=b'') measurement_escape = ([], Inr ''a=b'')"
  by (simp add: translate_def tag_escape_def measurement_escape_def backslash_def newline_def)

text \<open>
  C10: for a point without a \<open>tags\<close> entry \<open>_parse_tags\<close> returns the empty text whatever
  \<open>extra_tags\<close> holds, so \<open>make_line\<close> gives what it gives without extra tags, and a line it
  returns is the measurement, a space, the fields, a space and the timestamp: no tag segment.
\<close>

theorem extra_tags_dropped_without_tags_key:
  assumes "point_tags point = None"
  shows "parse_tags point extra_tags = Inr []
       \<and> make_line e point measurement extra_tags = make_line e point measurement []
       \<and> (\<forall>line. make_line e point measurement extra_tags = Inr line \<longrightarrow>
            (\<exists>m f t. parse_measurement point measurement = Inr m
                    \<and> parse_fields point = Inr f
                    \<and> parse_timestamp e point = Inr t
                    \<and> line = m @ '' '' @ f @ '' '' @ t))"
proof -
  have tags: "parse_tags point xs = Inr []" for xs
    using assms by (simp add: parse_tags_def)
  have same: "make_line e point measurement extra_tags = make_line e point measurement []"
    by (simp add: make_line_tagless [OF tags])
  have shape: "\<exists>m f t. parse_measurement point measurement = Inr m
                    \<and> parse_fields point = Inr f
                    \<and> parse_timestamp e point = Inr t
                    \<and> line = m @ '' '' @ f @ '' '' @ t"
    if "make_line e point measurement extra_tags = Inr line" for line
    using that by (auto simp: make_line_tagless [OF tags] split: sum.splits)
  from tags same shape show ?thesis by blast
qed

theorem extra_tags_dropped_without_tags_key_witness:
  "parse_tags (no_point\<lparr>point_fields := Some [(''count'', PInt 3)]\<rparr>) [(''host'', PStr ''a'')]
     = Inr []
   \<and> make_line utc_env (no_point\<lparr>point_fields := Some [(''count'', PInt 3)]\<rparr>) (PStr ''m'')
        [(''host'', PStr ''a'')] = Inr ''m count=3i ''"
  using extra_tags_dropped_without_tags_key
    [of "no_point\<lparr>point_fields := Some [(''count'', PInt 3)]\<rparr>" "[(''host'', PStr ''a'')]"
        utc_env "PStr ''m''"]
  by (simp add: make_line_def parse_tags_def parse_measurement_def parse_fields_def
      parse_timestamp_def no_point_def utc_env_def translate_def key_escape_def
      measurement_escape_def backslash_def newline_def str_int_def str_nat.simps digit_def)

text \<open>
  C2 at two naive timestamps on the path without pandas. For 2018-07-01 12:00:00 on a
  machine in the Berlin zone the code subtracts \<open>time.timezone\<close>, the offset without daylight
  saving, from a \<open>timestamp()\<close> taken with daylight saving, and emits a value one hour
  (3600 * 10^9) short of the UTC reading 1530446400000000000. For 1969-12-31 23:59:59.5 on
  a machine in UTC, \<open>int()\<close> truncates -0.5 to 0 and the code emits 500000000 where the UTC
  reading is -500000000. The pandas path gives the UTC reading in both cases.
\<close>

theorem parse_timestamp_naive_not_utc:
  "parse_timestamp berlin_env
     (no_point\<lparr>point_time := Some (TDateTime \<lparr>wall = 1530446400, microsecond = 0, tzinfo = None\<rparr>)\<rparr>)
     = Inr ''1530442800000000000''
   \<and> parse_timestamp (berlin_env\<lparr>pd := True\<rparr>)
     (no_point\<lparr>point_time := Some (TDateTime \<lparr>wall = 1530446400, microsecond = 0, tzinfo = None\<rparr>)\<rparr>)
     = Inr ''1530446400000000000''
   \<and> parse_timestamp utc_env
     (no_point\<lparr>point_time := Some (TDateTime \<lparr>wall = - 1, microsecond = 500000, tzinfo = None\<rparr>)\<rparr>)
     = Inr ''500000000''
   \<and> parse_timestamp (utc_env\<lparr>pd := True\<rparr>)
     (no_point\<lparr>point_time := Some (TDateTime \<lparr>wall = - 1, microsecond = 500000, tzinfo = None\<rparr>)\<rparr>)
     = Inr ''-500000000''"
  by (simp add: parse_timestamp_def timestamp_def py_int_def Timestamp_value_def no_point_def
      berlin_env_def utc_env_def str_int_def str_nat.simps digit_def)

section \<open>Properties of the decoder\<close>

lemma astype_fold_index:
  "df_index (foldl (\<lambda>d (col, tgs). if col \<notin> set (df_columns d) then d
                                     else astype_category col tgs d) df cols) = df_index df"
  by (induction cols arbitrary: df) (auto simp: astype_category_def)

lemma astype_fold_length:
  "length (df_rows (foldl (\<lambda>d (col, tgs). if col \<notin> set (df_columns d) then d
                                     else astype_category col tgs d) df cols)) = length (df_rows df)"
  by (induction cols arbitrary: df) (auto simp: astype_category_def)

lemma post_process_index:
  "df_index (snd (post_process cache kd)) = df_index (drop_zero_index (snd kd))"
  by (simp add: post_process_def Let_def astype_fold_index split: option.splits)

lemma post_process_length:
  "length (df_rows (snd (post_process cache kd))) = length (df_rows (snd kd))"
  by (simp add: post_process_def Let_def astype_fold_length drop_zero_index_def
      split: option.splits pd_index.splits)


lemma drop_zero_index_zero:
  "df_index df = DatetimeIndex ts \<Longrightarrow> \<forall>t \<in> set ts. t = 0 \<Longrightarrow>
   df_index (drop_zero_index df) = RangeIndex (length (df_rows df))"
  by (simp add: drop_zero_index_def)

lemma drop_zero_index_kept:
  "df_index (drop_zero_index df) = DatetimeIndex ts \<Longrightarrow> \<exists>t \<in> set ts. t \<noteq> 0"
  by (auto simp: drop_zero_index_def RangeIndex_def split: pd_index.splits if_splits)

lemma tables_of_make_df:
  "make_df to_datetime resp cache = Inr out \<Longrightarrow>
   \<exists>dfs. make_dfs to_datetime resp cache = Inr dfs \<and> tables_of out = map snd dfs"
  by (auto simp: make_df_def split: sum.splits list.splits)

text \<open>
  C8: every table \<open>make_df\<close> returns is the post-processed concatenation of one identity
  group; a group whose temporal index is entirely the zero epoch comes back with a
  positional \<open>RangeIndex\<close> over its rows, and no returned table keeps a temporal index
  that is entirely zero.
\<close>

theorem zero_epoch_index_dropped:
  assumes "make_df to_datetime resp cache = Inr out"
  shows "\<exists>df_list. parsing to_datetime resp = Inr df_list
           \<and> tables_of out = map (\<lambda>kd. snd (post_process cache kd)) (concatenation df_list)
           \<and> (\<forall>kd \<in> set (concatenation df_list). \<forall>ts.
                 df_index (snd kd) = DatetimeIndex ts \<and> (\<forall>t \<in> set ts. t = 0) \<longrightarrow>
                 df_index (snd (post_process cache kd)) = RangeIndex (length (df_rows (snd kd))))
           \<and> (\<forall>df \<in> set (tables_of out). \<forall>ts.
                 df_index df = DatetimeIndex ts \<longrightarrow> (\<exists>t \<in> set ts. t \<noteq> 0))"
proof -
  from tables_of_make_df [OF assms] obtain dfs where
    dfs: "make_dfs to_datetime resp cache = Inr dfs" and out: "tables_of out = map snd dfs"
    by blast
  from dfs obtain df_list where
    p: "parsing to_datetime resp = Inr df_list" and
    d: "dfs = map (post_process cache) (concatenation df_list)"
    by (auto simp: make_dfs_def split: sum.splits)
  have a: "tables_of out = map (\<lambda>kd. snd (post_process cache kd)) (concatenation df_list)"
    by (simp add: out d)
  have b: "df_index (snd (post_process cache kd)) = RangeIndex (length (df_rows (snd kd)))"
    if "df_index (snd kd) = DatetimeIndex ts" "\<forall>t \<in> set ts. t = 0" for kd ts
    using that by (simp add: post_process_index drop_zero_index_zero)
  have c: "\<exists>t \<in> set ts. t \<noteq> 0"
    if "df \<in> set (tables_of out)" "df_index df = DatetimeIndex ts" for df ts
  proof -
    from that(1) a obtain kd where "df = snd (post_process cache kd)" by auto
    with that(2) have "df_index (drop_zero_index (snd kd)) = DatetimeIndex ts"
      by (simp add: post_process_index)
    then show ?thesis by (rule drop_zero_index_kept)
  qed
  from p a b c show ?thesis by blast
qed

theorem zero_epoch_index_dropped_witness:
  "make_df epoch_ns (Some [Some [zero_series]]) None
     = Inr (Table \<lparr>df_index = PlainIndex [Pos 0, Pos 1], df_columns = [''name''],
                   df_rows = [[CStr ''db0''], [CStr ''db1'']], df_categorical = []\<rparr>)
   \<and> (\<exists>df_list. parsing epoch_ns (Some [Some [zero_series]]) = Inr df_list
        \<and> (\<forall>kd \<in> set (concatenation df_list).
              df_index (snd kd) = DatetimeIndex [0, 0]
              \<and> df_index (snd (post_process None kd)) = RangeIndex 2))"
proof -
  have e: "make_df epoch_ns (Some [Some [zero_series]]) None
     = Inr (Table \<lparr>df_index = PlainIndex [Pos 0, Pos 1], df_columns = [''name''],
                   df_rows = [[CStr ''db0''], [CStr ''db1'']], df_categorical = []\<rparr>)"
    by (simp add: make_df_def make_dfs_def parsing_def parse_series_def maker_def DataFrame_def
        zero_series_def epoch_ns_def get_column_def drop_column_def RangeIndex_def
        concatenation_def grouping_def pd_concat_def concat_index_def align_def
        post_process_def drop_zero_index_def)
  have p: "parsing epoch_ns (Some [Some [zero_series]])
     = Inr [((''databases'', []), \<lparr>df_index = DatetimeIndex [0, 0], df_columns = [''name''],
                   df_rows = [[CStr ''db0''], [CStr ''db1'']], df_categorical = []\<rparr>)]"
    by (simp add: parsing_def parse_series_def maker_def DataFrame_def
        zero_series_def epoch_ns_def get_column_def drop_column_def RangeIndex_def)
  from zero_epoch_index_dropped [OF e] e p show ?thesis
    by (simp add: concatenation_def grouping_def pd_concat_def concat_index_def align_def
        post_process_def drop_zero_index_def RangeIndex_def numeral_2_eq_2)
qed












lemma collect_Inr_map: "collect xs = Inr ys \<Longrightarrow> xs = map Inr ys"
proof (induction xs arbitrary: ys)
  case Nil
  then show ?case by simp
next
  case (Cons x xs)
  show ?case
  proof (cases x)
    case (Inl e)
    with Cons.prems show ?thesis by simp
  next
    case (Inr y)
    with Cons.prems obtain zs where z: "collect xs = Inr zs" and ys: "ys = y # zs"
      by (auto split: sum.splits)
    from Cons.IH [OF z] Inr ys show ?thesis by simp
  qed
qed





















lemma map_eq_all2: "map f xs = map g ys \<Longrightarrow> list_all2 (\<lambda>x y. f x = g y) xs ys"
  by (induction xs arbitrary: ys) auto






section \<open>Properties of the DataFrame encoder and of the dispatch\<close>

lemma has_pair_Cons:
  "has_pair a b (x # t) = ((t \<noteq> [] \<and> x = a \<and> hd t = b) \<or> has_pair a b t)"
  by (cases t) auto

lemma sub_comma_runs_Nil: "(sub_comma_runs s = []) = (s = [])"
  by (cases s) auto

lemma sub_comma_runs_hd: "s \<noteq> [] \<Longrightarrow> hd (sub_comma_runs s) = hd s"
  by (cases s) auto

lemma no_comma_runs: "\<not> has_pair CHR '','' CHR '','' (sub_comma_runs s)"
proof (induction s rule: sub_comma_runs.induct)
  case 1
  show ?case by simp
next
  case (2 c rest)
  show ?case
  proof (cases "c = CHR '',''")
    case True
    let ?d = "dropWhile (\<lambda>x. x = CHR '','') rest"
    have eq: "sub_comma_runs (c # rest) = c # sub_comma_runs ?d"
      using True by simp
    have ih: "\<not> has_pair CHR '','' CHR '','' (sub_comma_runs ?d)"
      using "2.IH"(1) [OF True] .
    have "?d = [] \<or> hd ?d \<noteq> CHR '',''"
      using hd_dropWhile [of "\<lambda>x. x = CHR '',''" rest] by blast
    then have "sub_comma_runs ?d = [] \<or> hd (sub_comma_runs ?d) \<noteq> CHR '',''"
      by (metis sub_comma_runs_Nil sub_comma_runs_hd)
    with ih show ?thesis unfolding eq by (simp only: has_pair_Cons) blast
  next
    case False
    have eq: "sub_comma_runs (c # rest) = c # sub_comma_runs rest"
      using False by simp
    from "2.IH"(2) [OF False] False show ?thesis
      unfolding eq by (simp only: has_pair_Cons) blast
  qed
qed

lemma sub_dangling_Nil: "(sub_dangling u = []) = (u = [])"
  by (cases u rule: sub_dangling.cases) auto

lemma sub_dangling_hd:
  "u \<noteq> [] \<Longrightarrow>
   hd (sub_dangling u) = hd u
   \<or> (hd (sub_dangling u) = CHR '' '' \<and> (hd u = CHR '','' \<or> hd u = CHR '' ''))"
  by (cases u rule: sub_dangling.cases) auto

lemma delimiter_clean_Cons:
  "delimiter_clean (x # t) =
     ((t = [] \<or> \<not> ((x = CHR '','' \<and> (hd t = CHR '','' \<or> hd t = CHR '' ''))
                     \<or> (x = CHR '' '' \<and> hd t = CHR '','')))
      \<and> delimiter_clean t)"
  by (cases t) (auto simp: delimiter_clean_def)

lemma sub_dangling_clean:
  "\<not> has_pair CHR '','' CHR '','' u \<Longrightarrow> delimiter_clean (sub_dangling u)"
proof (induction u rule: sub_dangling.induct)
  case 1
  show ?case by (simp add: delimiter_clean_def)
next
  case (2 a)
  show ?case by (simp add: delimiter_clean_def)
next
  case (3 a b)
  then show ?case by (auto simp: delimiter_clean_def)
next
  case (4 a b c rest)
  have ab: "\<not> (a = CHR '','' \<and> b = CHR '','')" "\<not> (b = CHR '','' \<and> c = CHR '','')"
    using "4.prems" by auto
  have c0: "rest = [] \<or> \<not> (c = CHR '','' \<and> hd rest = CHR '','')"
    using "4.prems" by (cases rest) auto
  have r1: "\<not> has_pair CHR '','' CHR '','' rest"
    using "4.prems" by (cases rest) auto
  have r2: "\<not> has_pair CHR '','' CHR '','' (c # rest)"
    using "4.prems" by auto
  have r3: "\<not> has_pair CHR '','' CHR '','' (b # c # rest)"
    using "4.prems" by auto
  show ?case
  proof (cases "a = CHR '','' \<and> b = CHR '' '' \<and> c = CHR '',''")
    case True
    then have eq: "sub_dangling (a # b # c # rest) = CHR '' '' # sub_dangling rest"
      by simp
    have ih: "delimiter_clean (sub_dangling rest)"
      using "4.IH"(1) [OF True r1] .
    have "sub_dangling rest = [] \<or> hd (sub_dangling rest) \<noteq> CHR '',''"
      using sub_dangling_hd [of rest] c0 True by (auto simp: sub_dangling_Nil)
    with ih show ?thesis unfolding eq by (simp add: delimiter_clean_Cons)
  next
    case n1: False
    show ?thesis
    proof (cases "(a = CHR '','' \<and> b = CHR '' '') \<or> (a = CHR '' '' \<and> b = CHR '','')")
      case True
      have eq: "sub_dangling (a # b # c # rest) = CHR '' '' # sub_dangling (c # rest)"
        using n1 True by auto
      have ih: "delimiter_clean (sub_dangling (c # rest))"
        using "4.IH"(2) [OF n1 True r2] .
      have "c \<noteq> CHR '',''" using True n1 ab by auto
      then have "hd (sub_dangling (c # rest)) \<noteq> CHR '',''"
        using sub_dangling_hd [of "c # rest"] by auto
      with ih show ?thesis unfolding eq by (simp add: delimiter_clean_Cons)
    next
      case n2: False
      have eq: "sub_dangling (a # b # c # rest) = a # sub_dangling (b # c # rest)"
        using n1 n2 by auto
      have ih: "delimiter_clean (sub_dangling (b # c # rest))"
        using "4.IH"(3) [OF n1 n2 r3] .
      have "\<not> ((a = CHR '','' \<and> (hd (sub_dangling (b # c # rest)) = CHR '',''
                                  \<or> hd (sub_dangling (b # c # rest)) = CHR '' ''))
              \<or> (a = CHR '' '' \<and> hd (sub_dangling (b # c # rest)) = CHR '',''))"
        using sub_dangling_hd [of "b # c # rest"] n2 ab(1) by auto
      with ih show ?thesis unfolding eq by (simp add: delimiter_clean_Cons)
    qed
  qed
qed

lemma collect_append:
  "collect (xs @ ys) =
     (case collect xs of
        Inl err \<Rightarrow> Inl err
      | Inr a \<Rightarrow> (case collect ys of Inl err \<Rightarrow> Inl err | Inr b \<Rightarrow> Inr (a @ b)))"
  by (induction xs rule: collect.induct) (auto split: sum.splits)


lemma translate_Nil: "translate tbl [] = []"
  by (simp add: translate_def)

lemma translate_Cons:
  "translate tbl (c # s) = (case map_of tbl c of None \<Rightarrow> [c] | Some r \<Rightarrow> r) @ translate tbl s"
  by (simp add: translate_def)

lemma py_literal_char:
  assumes "c \<noteq> backslash" "c \<noteq> q" "c \<noteq> newline" "c \<noteq> creturn" "c \<noteq> nul"
  shows "py_literal q (c # rest) = map_option ((#) c) (py_literal q rest)"
  using assms by (cases rest) simp_all

lemma py_literal_plain:
  assumes "\<forall>c \<in> set t. c \<noteq> backslash \<and> c \<noteq> q \<and> c \<noteq> newline \<and> c \<noteq> creturn \<and> c \<noteq> nul"
  shows "py_literal q (t @ rest) = map_option ((@) t) (py_literal q rest)"
  using assms
proof (induction t)
  case Nil
  show ?case by (simp add: option.map_ident)
next
  case (Cons c t)
  then show ?case by (simp add: py_literal_char option.map_comp comp_def)
qed

lemma py_literal_backslashes:
  "py_literal q (backslash # backslash # rest) = map_option ((#) backslash) (py_literal q rest)"
  by simp

lemma py_literal_kept:
  "py_literal q (backslash # CHR '','' # rest)
     = map_option (\<lambda>t. backslash # CHR '','' # t) (py_literal q rest)"
  "py_literal q (backslash # CHR '' '' # rest)
     = map_option (\<lambda>t. backslash # CHR '' '' # t) (py_literal q rest)"
  "py_literal q (backslash # CHR ''='' # rest)
     = map_option (\<lambda>t. backslash # CHR ''='' # t) (py_literal q rest)"
  by (simp_all add: squote_def dquote_def newline_def creturn_def nul_def backslash_def)

lemma key_escape_units:
  "map_of key_escape backslash = Some [backslash, backslash]"
  "map_of key_escape CHR '','' = Some [backslash, CHR '','']"
  "map_of key_escape CHR '' '' = Some [backslash, CHR '' '']"
  "map_of key_escape CHR ''='' = Some [backslash, CHR ''='']"
  "map_of key_escape newline = Some []"
  "c \<noteq> backslash \<Longrightarrow> c \<noteq> CHR '','' \<Longrightarrow> c \<noteq> CHR '' '' \<Longrightarrow> c \<noteq> CHR ''='' \<Longrightarrow> c \<noteq> newline
   \<Longrightarrow> map_of key_escape c = None"
  by (simp_all add: key_escape_def backslash_def newline_def)

lemma literal_escape_units:
  "map_of literal_escape backslash = None"
  "map_of literal_escape CHR '','' = Some [backslash, CHR '','']"
  "map_of literal_escape CHR '' '' = Some [backslash, CHR '' '']"
  "map_of literal_escape CHR ''='' = Some [backslash, CHR ''='']"
  "map_of literal_escape newline = Some []"
  "c \<noteq> CHR '','' \<Longrightarrow> c \<noteq> CHR '' '' \<Longrightarrow> c \<noteq> CHR ''='' \<Longrightarrow> c \<noteq> newline
   \<Longrightarrow> map_of literal_escape c = None"
  by (simp_all add: literal_escape_def backslash_def newline_def)

lemma py_literal_escaped:
  assumes "literal_safe q k"
  shows "py_literal q (translate key_escape k @ rest)
           = map_option ((@) (translate literal_escape k)) (py_literal q rest)"
  using assms
proof (induction k)
  case Nil
  show ?case by (simp add: translate_Nil option.map_ident)
next
  case (Cons c k)
  from Cons.prems have safe: "c \<noteq> q" "c \<noteq> creturn" "c \<noteq> nul" and k: "literal_safe q k"
    by (simp_all add: literal_safe_def)
  note IH = Cons.IH [OF k]
  consider "c = backslash" | "c = CHR '',''" | "c = CHR '' ''" | "c = CHR ''=''" | "c = newline"
    | "c \<noteq> backslash" "c \<noteq> CHR '',''" "c \<noteq> CHR '' ''" "c \<noteq> CHR ''=''" "c \<noteq> newline"
    by blast
  then show ?case
  proof cases
    case 1
    show ?thesis unfolding 1
      by (simp add: translate_Cons key_escape_units literal_escape_units IH option.map_comp comp_def
          del: py_literal.simps add: py_literal_backslashes)
  next
    case 2
    show ?thesis unfolding 2
      by (simp add: translate_Cons key_escape_units literal_escape_units IH option.map_comp comp_def
          del: py_literal.simps add: py_literal_kept)
  next
    case 3
    show ?thesis unfolding 3
      by (simp add: translate_Cons key_escape_units literal_escape_units IH option.map_comp comp_def
          del: py_literal.simps add: py_literal_kept)
  next
    case 4
    show ?thesis unfolding 4
      by (simp add: translate_Cons key_escape_units literal_escape_units IH option.map_comp comp_def
          del: py_literal.simps add: py_literal_kept)
  next
    case 5
    show ?thesis unfolding 5
      by (simp add: translate_Cons key_escape_units literal_escape_units IH)
  next
    case 6
    then show ?thesis
      using safe
      by (simp add: translate_Cons key_escape_units literal_escape_units py_literal_char IH
          option.map_comp comp_def del: py_literal.simps)
  qed
qed

lemma format_pieces_char:
  assumes "c \<noteq> CHR ''{''" "c \<noteq> CHR ''}''"
  shows "format_pieces (c # rest) = map_option ((#) (Text c)) (format_pieces rest)"
  using assms by (cases rest) simp_all

lemma format_pieces_plain:
  assumes "format_safe t"
  shows "format_pieces (t @ rest) = map_option ((@) (map Text t)) (format_pieces rest)"
  using assms
proof (induction t)
  case Nil
  show ?case by (simp add: option.map_ident)
next
  case (Cons c t)
  then show ?case by (simp add: format_safe_def format_pieces_char option.map_comp comp_def)
qed

lemma format_pieces_field:
  "format_pieces (''{}'' @ rest) = map_option ((#) Field) (format_pieces rest)"
  by simp

lemma translate_format_safe:
  assumes "format_safe k"
  shows "format_safe (translate literal_escape k)"
proof -
  have "\<forall>x \<in> set r. x \<noteq> CHR ''{'' \<and> x \<noteq> CHR ''}''" if "map_of literal_escape c = Some r" for c r
    using that by (auto simp: literal_escape_def backslash_def split: if_splits)
  with assms show ?thesis
    by (fastforce simp: format_safe_def translate_def split: option.splits)
qed

lemma on_result_comp: "on_result f (on_result g r) = on_result (\<lambda>x. f (g x)) r"
  by (cases r) (simp_all add: on_result_def)

lemma on_result_Inr: "on_result f (Inr x) = Inr (f x)"
  by (simp add: on_result_def)

lemma fill_text: "fill (map Text t @ ps) args = on_result ((@) t) (fill ps args)"
proof (induction t)
  case Nil
  show ?case by (cases "fill ps args") (simp_all add: on_result_def)
next
  case (Cons c t)
  then show ?case by (simp add: on_result_comp)
qed

lemma items_literal:
  assumes "list_all item_ok xs"
  shows "py_literal squote (concat (map item_source xs) @ rest)
           = map_option ((@) (concat (map item_value xs))) (py_literal squote rest)"
  using assms
proof (induction xs)
  case Nil
  show ?case by (simp add: option.map_ident)
next
  case (Cons x xs)
  then have IH: "py_literal squote (concat (map item_source xs) @ rest)
           = map_option ((@) (concat (map item_value xs))) (py_literal squote rest)"
    and ok: "item_ok x"
    by simp_all
  show ?case
  proof (cases x)
    case (Verbatim t)
    with ok have "\<forall>c \<in> set t. c \<noteq> backslash \<and> c \<noteq> squote \<and> c \<noteq> newline \<and> c \<noteq> creturn \<and> c \<noteq> nul"
      by (auto simp: literal_safe_def)
    from py_literal_plain [OF this] show ?thesis
      by (simp add: Verbatim IH option.map_comp comp_def)
  next
    case (Label k)
    with ok have "literal_safe squote k" by simp
    from py_literal_escaped [OF this] show ?thesis
      by (simp add: Label IH option.map_comp comp_def)
  next
    case (Slot a)
    have "\<forall>c \<in> set ''{}''. c \<noteq> backslash \<and> c \<noteq> squote \<and> c \<noteq> newline \<and> c \<noteq> creturn \<and> c \<noteq> nul"
      by (simp add: backslash_def squote_def newline_def creturn_def nul_def)
    from py_literal_plain [OF this] show ?thesis
      by (simp add: Slot IH option.map_comp comp_def del: py_literal.simps)
  qed
qed

lemma items_format:
  assumes "list_all item_ok xs"
  shows "format_pieces (concat (map item_value xs) @ rest)
           = map_option ((@) (concat (map item_pieces xs))) (format_pieces rest)"
  using assms
proof (induction xs)
  case Nil
  show ?case by (simp add: option.map_ident)
next
  case (Cons x xs)
  then have IH: "format_pieces (concat (map item_value xs) @ rest)
           = map_option ((@) (concat (map item_pieces xs))) (format_pieces rest)"
    and ok: "item_ok x"
    by simp_all
  show ?case
  proof (cases x)
    case (Verbatim t)
    with ok have "format_safe t" by simp
    from format_pieces_plain [OF this] show ?thesis
      by (simp add: Verbatim IH option.map_comp comp_def)
  next
    case (Label k)
    with ok have "format_safe (translate literal_escape k)" by (simp add: translate_format_safe)
    from format_pieces_plain [OF this] show ?thesis
      by (simp add: Label IH option.map_comp comp_def)
  next
    case (Slot a)
    show ?thesis
      using format_pieces_field [of "concat (map item_value xs) @ rest"]
      by (simp add: Slot IH option.map_comp comp_def del: format_pieces.simps)
  qed
qed

lemma items_fill:
  "fill (concat (map item_pieces xs) @ ps) (map (operand_value p) (concat (map item_slots xs)) @ args)
     = on_result ((@) (concat (map (item_out p) xs))) (fill ps args)"
proof (induction xs)
  case Nil
  show ?case by (cases "fill ps args") (simp_all add: on_result_def)
next
  case (Cons x xs)
  show ?case
  proof (cases x)
    case (Verbatim t)
    show ?thesis by (simp add: Verbatim fill_text Cons.IH on_result_comp)
  next
    case (Label k)
    show ?thesis by (simp add: Label fill_text Cons.IH on_result_comp)
  next
    case (Slot a)
    show ?thesis by (simp add: Slot Cons.IH on_result_comp)
  qed
qed

lemma tag_escape_key_escape: "tag_escape = key_escape"
  by (simp add: tag_escape_def key_escape_def)

lemma escape_key_text:
  "snd (escape v key_escape) = Inr t \<Longrightarrow> t = translate key_escape (py_str v)"
  by (cases v) (simp_all add: tag_escape_key_escape)

lemma extra_loop_entries:
  "extra_loop xs acc = Inr r \<Longrightarrow>
   r = acc @ map (\<lambda>(k, v). (k @ ''={}'', Literal (translate key_escape (py_str v)))) xs"
proof (induction xs arbitrary: acc)
  case Nil
  then show ?case by simp
next
  case (Cons x xs)
  obtain k v where x: "x = (k, v)" by (cases x)
  from Cons.prems obtain t where t: "snd (escape v key_escape) = Inr t"
    and r: "extra_loop xs (acc @ [(k @ ''={}'', Literal t)]) = Inr r"
    unfolding x by (auto split: sum.splits)
  from Cons.IH [OF r] escape_key_text [OF t] show ?case by (simp add: x)
qed

lemma columns_loop_entries:
  "columns_loop tc i cols (tgs, flds) =
     (tgs @ map (\<lambda>(j, k, v). (translate key_escape k @ ''={}'', P j))
              (filter (\<lambda>(j, k, v). translate key_escape k \<in> set tc) (enumerate i cols)),
      flds @ map (\<lambda>(j, k, v). (translate key_escape k
                                  @ (if v = Dint then ''={}i''
                                     else if v = Dfloat \<or> v = Dbool then ''={}''
                                     else ''='' @ [dquote] @ ''{}'' @ [dquote]), P j))
               (filter (\<lambda>(j, k, v). translate key_escape k \<notin> set tc) (enumerate i cols)))"
proof (induction cols arbitrary: i tgs flds)
  case Nil
  show ?case by simp
next
  case (Cons c cols)
  obtain k v where c: "c = (k, v)" by (cases c)
  show ?case unfolding c by (simp add: Let_def Cons.IH)
qed

lemma join_Cons: "join sep (x # xs) = x @ concat (map ((@) sep) xs)"
  by (induction xs arbitrary: x) simp_all

lemma join_led: "(if xs \<noteq> [] then sep else []) @ join sep xs = concat (map ((@) sep) xs)"
  by (cases xs) (simp_all add: join_Cons)

lemma separated_Cons: "separated (x # xs) = x @ concat (map ((#) (Verbatim '','')) xs)"
  by (induction xs arbitrary: x) simp_all

lemma those_Some: "those (map Some xs) = Some xs"
  by (induction xs) simp_all

lemma collect_values:
  assumes "collect (map (\<lambda>a. case a of
                           Const t \<Rightarrow> Inr t
                         | Column i \<Rightarrow> if i < length (snd p) then Inr (py_str (snd p ! i))
                                       else Inl (IndexError ''tuple index out of range'')) ops)
           = Inr args"
  shows "args = map (operand_value p) ops"
  using assms
proof (induction ops arbitrary: args)
  case Nil
  then show ?case by simp
next
  case (Cons a ops)
  show ?case
  proof (cases a)
    case (Const t)
    with Cons.prems obtain r where "collect (map (\<lambda>a. case a of
                           Const t \<Rightarrow> Inr t
                         | Column i \<Rightarrow> if i < length (snd p) then Inr (py_str (snd p ! i))
                                       else Inl (IndexError ''tuple index out of range'')) ops) = Inr r"
      and "args = t # r"
      by (auto split: sum.splits)
    with Cons.IH [of r] Const show ?thesis by simp
  next
    case (Column j)
    with Cons.prems obtain r where "collect (map (\<lambda>a. case a of
                           Const t \<Rightarrow> Inr t
                         | Column i \<Rightarrow> if i < length (snd p) then Inr (py_str (snd p ! i))
                                       else Inl (IndexError ''tuple index out of range'')) ops) = Inr r"
      and "args = py_str (snd p ! j) # r"
      by (auto split: sum.splits if_splits)
    with Cons.IH [of r] Column show ?thesis by simp
  qed
qed

lemma concat_map_led:
  "concat (map g (concat (map ((#) a) xs))) = concat (map (\<lambda>y. g a @ concat (map g y)) xs)"
  by (induction xs) simp_all

lemma concat_map_separated:
  "concat (map g (separated xs))
     = (case xs of [] \<Rightarrow> []
        | x # ys \<Rightarrow> concat (map g x) @ concat (map (\<lambda>y. g (Verbatim '','') @ concat (map g y)) ys))"
  by (cases xs) (simp_all add: separated_Cons concat_map_led)

lemma list_all_separated:
  "list_all item_ok (separated xs) = (xs = [] \<or> (list_all (list_all item_ok) xs))"
proof (cases xs)
  case Nil
  then show ?thesis by simp
next
  case (Cons x ys)
  have c: "item_ok (Verbatim '','')"
    by (simp add: literal_safe_def format_safe_def squote_def creturn_def nul_def backslash_def
        newline_def)
  have "list_all item_ok (concat (map ((#) (Verbatim '','')) ys)) = list_all (list_all item_ok) ys"
    by (induction ys) (simp_all add: c del: item_ok.simps)
  then show ?thesis by (simp add: Cons separated_Cons)
qed

lemma tag_items_ok:
  "literal_safe squote k \<and> format_safe k \<Longrightarrow> list_all item_ok (tag_items (j, k, v))"
  by (simp add: literal_safe_def format_safe_def squote_def creturn_def nul_def backslash_def
      newline_def)

lemma field_items_ok:
  "literal_safe squote k \<and> format_safe k \<Longrightarrow> list_all item_ok (field_items (j, k, v))"
  by (simp add: literal_safe_def format_safe_def squote_def dquote_def creturn_def nul_def
      backslash_def newline_def)

lemma enumerate_member: "(j, x) \<in> set (enumerate i xs) \<Longrightarrow> x \<in> set xs"
  by (auto simp: in_set_enumerate_eq)

lemma template_ok:
  assumes "plain_inputs df measurement extra_tags"
  shows "list_all item_ok (template df measurement tag_columns extra_tags)"
proof -
  from assms have m: "item_ok (Verbatim (py_str measurement))"
    and ex: "\<And>k v. (k, v) \<in> set extra_tags \<Longrightarrow> verbatim k"
    and lb: "\<And>k v. (k, v) \<in> set (tb_dtypes df) \<Longrightarrow> literal_safe squote k \<and> format_safe k"
    by (auto simp: plain_inputs_def verbatim_def)
  have c: "item_ok (Verbatim '','')" "item_ok (Verbatim ''='')" "item_ok (Verbatim '' '')"
    by (simp_all add: literal_safe_def format_safe_def squote_def creturn_def nul_def backslash_def
        newline_def)
  have e: "list_all item_ok
             (concat (map (\<lambda>(k, v). [Verbatim '','', Verbatim k, Verbatim ''='',
                               Slot (Const (translate literal_escape (py_str v)))]) extra_tags))"
  proof -
    have "list_all item_ok [Verbatim '','', Verbatim k, Verbatim ''='',
                               Slot (Const (translate literal_escape (py_str v)))]"
      if "(k, v) \<in> set extra_tags" for k v
      using ex [OF that] c by (simp add: verbatim_def)
    then show ?thesis by (auto simp: list_all_iff simp del: item_ok.simps)
  qed
  have t: "list_all item_ok (concat (map tag_items
                 (filter (\<lambda>(j, k, v). is_tag df tag_columns k) (enumerate 0 (tb_dtypes df)))))"
    using lb by (auto simp: list_all_iff dest!: enumerate_member simp del: tag_items.simps item_ok.simps
        intro: tag_items_ok [unfolded list_all_iff, rule_format])
  have f: "list_all (list_all item_ok) (map field_items
                    (filter (\<lambda>(j, k, v). \<not> is_tag df tag_columns k) (enumerate 0 (tb_dtypes df))))"
    using lb by (auto simp: list_all_iff dest!: enumerate_member simp del: field_items.simps item_ok.simps
        intro: field_items_ok [unfolded list_all_iff, rule_format])
  from m e t f c show ?thesis
    by (simp add: template_def list_all_separated del: item_ok.simps)
qed

lemma template_source:
  "concat (map item_source (template df measurement tag_columns extra_tags))
     = py_str measurement
       @ concat (map ((@) '','')
           (map fst (map (\<lambda>(k, v). (k @ ''={}'', Literal (translate key_escape (py_str v)))) extra_tags
                     @ map (\<lambda>(j, k, v). (translate key_escape k @ ''={}'', P j))
                         (filter (\<lambda>(j, k, v). is_tag df tag_columns k) (enumerate 0 (tb_dtypes df))))))
       @ '' ''
       @ join '','' (map fst
           (map (\<lambda>(j, k, v). (translate key_escape k
                                  @ (if v = Dint then ''={}i''
                                     else if v = Dfloat \<or> v = Dbool then ''={}''
                                     else ''='' @ [dquote] @ ''{}'' @ [dquote]), P j))
              (filter (\<lambda>(j, k, v). \<not> is_tag df tag_columns k) (enumerate 0 (tb_dtypes df)))))"
proof -
  have e: "concat (map item_source
             (concat (map (\<lambda>(k, v). [Verbatim '','', Verbatim k, Verbatim ''='',
                               Slot (Const (translate literal_escape (py_str v)))]) xs)))
           = concat (map ((@) '','')
               (map fst (map (\<lambda>(k, v). (k @ ''={}'', Literal (translate key_escape (py_str v)))) xs)))"
    for xs :: "(string \<times> scalar) list"
    by (induction xs) auto
  have t: "concat (map item_source (concat (map tag_items xs)))
           = concat (map ((@) '','')
               (map fst (map (\<lambda>(j, k, v). (translate key_escape k @ ''={}'', P j)) xs)))"
    for xs :: "(nat \<times> string \<times> dtype) list"
    by (induction xs) auto
  have f1: "concat (map item_source (field_items x))
           = fst ((\<lambda>(j, k, v). (translate key_escape k
                                  @ (if v = Dint then ''={}i''
                                     else if v = Dfloat \<or> v = Dbool then ''={}''
                                     else ''='' @ [dquote] @ ''{}'' @ [dquote]), P j)) x)"
    for x :: "nat \<times> string \<times> dtype"
    by (cases x) simp
  have f: "concat (map item_source (separated (map field_items xs)))
           = join '','' (map fst
           (map (\<lambda>(j, k, v). (translate key_escape k
                                  @ (if v = Dint then ''={}i''
                                     else if v = Dfloat \<or> v = Dbool then ''={}''
                                     else ''='' @ [dquote] @ ''{}'' @ [dquote]), P j)) xs))"
    for xs :: "(nat \<times> string \<times> dtype) list"
  proof (cases xs)
    case Nil
    then show ?thesis by simp
  next
    case (Cons x ys)
    have "concat (map (\<lambda>y. item_source (Verbatim '','') @ concat (map item_source y)) (map field_items ys))
          = concat (map ((@) '','') (map fst
           (map (\<lambda>(j, k, v). (translate key_escape k
                                  @ (if v = Dint then ''={}i''
                                     else if v = Dfloat \<or> v = Dbool then ''={}''
                                     else ''='' @ [dquote] @ ''{}'' @ [dquote]), P j)) ys)))"
      by (induction ys) (simp_all add: f1 del: field_items.simps)
    then show ?thesis
      unfolding Cons by (simp add: concat_map_separated join_Cons f1 del: field_items.simps)
  qed
  show ?thesis
    unfolding template_def by (simp add: e t f del: field_items.simps tag_items.simps)
qed

lemma template_slots:
  assumes "\<forall>(k, v) \<in> set extra_tags. literal_safe dquote (py_str v)"
  shows "map (\<lambda>t. eval_arg (snd t))
           ((map (\<lambda>(k, v). (k @ ''={}'', Literal (translate key_escape (py_str v)))) extra_tags
             @ map (\<lambda>(j, k, v). (translate key_escape k @ ''={}'', P j))
                 (filter (\<lambda>(j, k, v). is_tag df tag_columns k) (enumerate 0 (tb_dtypes df))))
            @ map (\<lambda>(j, k, v). (translate key_escape k
                                  @ (if v = Dint then ''={}i''
                                     else if v = Dfloat \<or> v = Dbool then ''={}''
                                     else ''='' @ [dquote] @ ''{}'' @ [dquote]), P j))
                (filter (\<lambda>(j, k, v). \<not> is_tag df tag_columns k) (enumerate 0 (tb_dtypes df))))
         = map Some (concat (map item_slots (template df measurement tag_columns extra_tags)))"
proof -
  have lit: "py_literal dquote (translate key_escape (py_str v)) = Some (translate literal_escape (py_str v))"
    if "(k, v) \<in> set extra_tags" for k v
  proof -
    from that assms have "literal_safe dquote (py_str v)" by auto
    from py_literal_escaped [OF this, of "[]"] show ?thesis by simp
  qed
  have e: "map (\<lambda>t. eval_arg (snd t))
             (map (\<lambda>(k, v). (k @ ''={}'', Literal (translate key_escape (py_str v)))) xs)
           = map Some (concat (map item_slots
               (concat (map (\<lambda>(k, v). [Verbatim '','', Verbatim k, Verbatim ''='',
                               Slot (Const (translate literal_escape (py_str v)))]) xs))))"
    if "set xs \<subseteq> set extra_tags" for xs
    using that by (induction xs) (auto simp: lit)
  have t: "map (\<lambda>t. eval_arg (snd t)) (map (\<lambda>(j, k, v). (translate key_escape k @ ''={}'', P j)) xs)
           = map Some (concat (map item_slots (concat (map tag_items xs))))"
    for xs :: "(nat \<times> string \<times> dtype) list"
    by (induction xs) auto
  have f1: "concat (map item_slots (field_items x)) = [Column (fst x)]" for x :: "nat \<times> string \<times> dtype"
    by (cases x) simp
  have f: "map (\<lambda>t. eval_arg (snd t))
             (map (\<lambda>(j, k, v). (translate key_escape k
                                  @ (if v = Dint then ''={}i''
                                     else if v = Dfloat \<or> v = Dbool then ''={}''
                                     else ''='' @ [dquote] @ ''{}'' @ [dquote]), P j)) xs)
           = map Some (concat (map item_slots (separated (map field_items xs))))"
    for xs :: "(nat \<times> string \<times> dtype) list"
  proof (cases xs)
    case Nil
    then show ?thesis by simp
  next
    case (Cons x ys)
    have "map (\<lambda>t. eval_arg (snd t))
             (map (\<lambda>(j, k, v). (translate key_escape k
                                  @ (if v = Dint then ''={}i''
                                     else if v = Dfloat \<or> v = Dbool then ''={}''
                                     else ''='' @ [dquote] @ ''{}'' @ [dquote]), P j)) ys)
          = map Some (concat (map (\<lambda>y. item_slots (Verbatim '','') @ concat (map item_slots y))
                                (map field_items ys)))"
      by (induction ys) (auto simp: f1 simp del: field_items.simps)
    then show ?thesis
      unfolding Cons by (cases x) (simp add: concat_map_separated f1 del: field_items.simps)
  qed
  show ?thesis
    unfolding template_def
    by (simp add: e [OF order_refl] t f del: map_map field_items.simps tag_items.simps)
qed

lemma compile_template:
  assumes "plain_inputs df measurement extra_tags"
    and "extra_loop extra_tags [] = Inr tgs0"
    and "columns_loop (tag_columns @ map fst (filter (\<lambda>(k, v). v = Dcategory) (tb_dtypes df))) 0
           (tb_dtypes df) (tgs0, []) = (tgs, flds)"
  shows "compile (py_str measurement @ (if tgs \<noteq> [] then '','' else []) @ join '','' (map fst tgs))
           (join '','' (map fst flds)) tgs flds
         = Some (concat (map item_pieces (template df measurement tag_columns extra_tags))
                   @ [Text CHR '' '', Field],
                 concat (map item_slots (template df measurement tag_columns extra_tags)))"
proof -
  let ?T = "template df measurement tag_columns extra_tags"
  from extra_loop_entries [OF assms(2)]
  have t0: "tgs0 = map (\<lambda>(k, v). (k @ ''={}'', Literal (translate key_escape (py_str v)))) extra_tags"
    by simp
  have tag: "(translate key_escape k
               \<in> set (tag_columns @ map fst (filter (\<lambda>(k, v). v = Dcategory) (tb_dtypes df))))
             = is_tag df tag_columns k" for k
    by (simp add: is_tag_def)
  from assms(3) have tg: "tgs = tgs0 @ map (\<lambda>(j, k, v). (translate key_escape k @ ''={}'', P j))
                 (filter (\<lambda>(j, k, v). is_tag df tag_columns k) (enumerate 0 (tb_dtypes df)))"
    and fl: "flds = map (\<lambda>(j, k, v). (translate key_escape k
                                  @ (if v = Dint then ''={}i''
                                     else if v = Dfloat \<or> v = Dbool then ''={}''
                                     else ''='' @ [dquote] @ ''{}'' @ [dquote]), P j))
                (filter (\<lambda>(j, k, v). \<not> is_tag df tag_columns k) (enumerate 0 (tb_dtypes df)))"
    unfolding columns_loop_entries tag by simp_all
  have src: "(py_str measurement @ (if tgs \<noteq> [] then '','' else []) @ join '','' (map fst tgs))
               @ '' '' @ join '','' (map fst flds) @ '' {}''
             = concat (map item_source ?T) @ '' {}''"
    unfolding template_source join_led [symmetric] tg fl t0 by simp
  from assms(1) have "\<forall>(k, v) \<in> set extra_tags. literal_safe dquote (py_str v)"
    by (auto simp: plain_inputs_def)
  from template_slots [OF this, of df tag_columns measurement]
  have ops: "map (\<lambda>t. eval_arg (snd t)) (tgs @ flds) = map Some (concat (map item_slots ?T))"
    unfolding tg fl t0 .
  note ok = template_ok [OF assms(1), of tag_columns]
  have sp: "py_literal squote '' {}'' = Some '' {}''" "format_pieces '' {}'' = Some [Text CHR '' '', Field]"
    by (simp_all add: backslash_def squote_def newline_def creturn_def nul_def)
  have l: "py_literal squote (concat (map item_source ?T) @ '' {}'')
             = Some (concat (map item_value ?T) @ '' {}'')"
    unfolding items_literal [OF ok] sp by simp
  have p: "format_pieces (concat (map item_value ?T) @ '' {}'')
             = Some (concat (map item_pieces ?T) @ [Text CHR '' '', Field])"
    unfolding items_format [OF ok] sp by simp
  show ?thesis
    unfolding compile_def src l option.case p ops those_Some by simp
qed

lemma make_f_plain:
  assumes "plain_inputs df measurement extra_tags"
    and "make_f py_eval df measurement tag_columns extra_tags = Inr f"
  shows "f = apply_f (concat (map item_pieces (template df measurement tag_columns extra_tags))
                        @ [Text CHR '' '', Field],
                      concat (map item_slots (template df measurement tag_columns extra_tags)))"
proof -
  from assms(2) obtain tgs0 where e: "extra_loop extra_tags [] = Inr tgs0"
    by (cases "extra_loop extra_tags []") (simp_all add: make_f_def)
  obtain tgs flds where
    c: "columns_loop (tag_columns @ map fst (filter (\<lambda>(k, v). v = Dcategory) (tb_dtypes df))) 0
           (tb_dtypes df) (tgs0, []) = (tgs, flds)"
    by fastforce
  from assms(2) show ?thesis
    unfolding make_f_def e sum.case Let_def c prod.case compile_template [OF assms(1) e c] option.case
    by simp
qed

lemma apply_render:
  assumes "apply_f (concat (map item_pieces (template df measurement tag_columns extra_tags))
                        @ [Text CHR '' '', Field],
                    concat (map item_slots (template df measurement tag_columns extra_tags))) p
           = Inr line"
  shows "line = render df measurement tag_columns extra_tags p"
proof -
  let ?T = "template df measurement tag_columns extra_tags"
  from assms obtain args where
    a: "collect (map (\<lambda>a. case a of
                           Const t \<Rightarrow> Inr t
                         | Column i \<Rightarrow> if i < length (snd p) then Inr (py_str (snd p ! i))
                                       else Inl (IndexError ''tuple index out of range''))
                   (concat (map item_slots ?T))) = Inr args"
    and f: "fill (concat (map item_pieces ?T) @ [Text CHR '' '', Field]) (args @ [str_int (fst p)])
            = Inr line"
    by (auto simp: apply_f_def split: sum.splits)
  from collect_values [OF a] have "args = map (operand_value p) (concat (map item_slots ?T))" .
  with f items_fill [of ?T "[Text CHR '' '', Field]" p "[str_int (fst p)]"]
  show ?thesis by (simp add: on_result_def render_def)
qed

lemma split_on_line:
  assumes "c \<notin> set l"
  shows "split_on c (l @ c # rest) = l # split_on c rest" and "split_on c l = [l]"
  using assms by (induction l) auto

lemma split_on_join:
  assumes "ls \<noteq> []" and "\<forall>l \<in> set ls. c \<notin> set l"
  shows "split_on c (join [c] ls) = ls"
  using assms
proof (induction ls)
  case Nil
  then show ?case by simp
next
  case (Cons l ls)
  show ?case
  proof (cases ls)
    case Nil
    with Cons.prems show ?thesis by (simp add: split_on_line)
  next
    case (Cons y ys)
    with Cons.prems Cons.IH have "split_on c (join [c] (y # ys)) = y # ys" by simp
    with Cons.prems show ?thesis unfolding Cons by (simp add: split_on_line)
  qed
qed

lemma collect_related: "collect (map g xs) = Inr ys \<Longrightarrow> list_all2 (\<lambda>x y. g x = Inr y) xs ys"
  by (rule map_eq_all2) (rule collect_Inr_map)

text \<open>
  C6, as the code has it. Whenever \<open>parse_df\<close> returns, its text is the lines of the rows
  joined with line breaks, one line per row: first, for the N rows without a null, what
  the formatter gives for the row; then, for the M rows with a null, what it gives passed
  through the three substitutions. Every line of a row with a null has no run of commas
  and no comma next to a space. Splitting the text at its line breaks gives these N + M
  lines back provided no line holds a line break itself. Where the measurement, the extra
  tags and the column labels bring no quote, brace or the like, the formatter gives for
  every row the line of \<open>render\<close>: measurement, tags, fields and timestamp with exactly one
  comma before each tag, one between two fields, and a space on either side of the fields.
\<close>

theorem parse_df_lines_and_null_rows:
  assumes "parse_df py_eval re_sub df measurement tag_columns extra_tags = Inr out"
  shows "\<exists>f ls.
       make_f py_eval df measurement tag_columns extra_tags = Inr f
     \<and> parse_df_lines py_eval re_sub df measurement tag_columns extra_tags = Inr ls
     \<and> out = join [newline] ls
     \<and> length ls = length (filter (\<lambda>p. \<not> row_isnull p) (tb_rows df))
                    + length (filter row_isnull (tb_rows df))
     \<and> list_all2 (\<lambda>p l. f p = Inr l) (filter (\<lambda>p. \<not> row_isnull p) (tb_rows df))
         (take (length (filter (\<lambda>p. \<not> row_isnull p) (tb_rows df))) ls)
     \<and> list_all2 (\<lambda>p l. \<exists>line x. f p = Inr line \<and> re_sub (nan_pattern df) line = Inr x
                           \<and> l = sub_dangling (sub_comma_runs x))
         (filter row_isnull (tb_rows df))
         (drop (length (filter (\<lambda>p. \<not> row_isnull p) (tb_rows df))) ls)
     \<and> (\<forall>l \<in> set (drop (length (filter (\<lambda>p. \<not> row_isnull p) (tb_rows df))) ls).
           delimiter_clean l)
     \<and> (ls \<noteq> [] \<and> (\<forall>l \<in> set ls. newline \<notin> set l) \<longrightarrow> split_on newline out = ls)
     \<and> (plain_inputs df measurement extra_tags \<longrightarrow>
           (\<forall>p line. f p = Inr line \<longrightarrow> line = render df measurement tag_columns extra_tags p))"
proof -
  let ?rows = "tb_rows df"
  let ?clean = "filter (\<lambda>p. \<not> row_isnull p) ?rows"
  let ?nulls = "filter row_isnull ?rows"
  let ?N = "length ?clean"
  from assms obtain ls where
    pl: "parse_df_lines py_eval re_sub df measurement tag_columns extra_tags = Inr ls"
    and out: "out = join [newline] ls"
    by (auto simp: parse_df_def on_result_def split: sum.splits)
  from pl obtain f where mf: "make_f py_eval df measurement tag_columns extra_tags = Inr f"
    and c: "(if list_ex row_isnull ?rows
         then collect (map f ?clean
                       @ map (\<lambda>p. case f p of
                                    Inl err \<Rightarrow> Inl err
                                  | Inr line \<Rightarrow> replacements re_sub df line) ?nulls)
         else collect (map f ?rows)) = Inr ls"
    unfolding parse_df_lines_def
    by (cases "tb_datetime df"; cases "make_f py_eval df measurement tag_columns extra_tags")
      simp_all
  have parts: "length ls = ?N + length ?nulls
     \<and> list_all2 (\<lambda>p l. f p = Inr l) ?clean (take ?N ls)
     \<and> list_all2 (\<lambda>p l. \<exists>line x. f p = Inr line \<and> re_sub (nan_pattern df) line = Inr x
                           \<and> l = sub_dangling (sub_comma_runs x)) ?nulls (drop ?N ls)"
  proof (cases "list_ex row_isnull ?rows")
    case False
    then have n: "?nulls = []" and a: "?clean = ?rows"
      by (auto simp: list_ex_iff filter_empty_conv filter_id_conv)
    from c False have "collect (map f ?rows) = Inr ls" by simp
    then have r: "list_all2 (\<lambda>p l. f p = Inr l) ?rows ls" by (rule collect_related)
    then have "length ls = length ?rows" by (simp add: list_all2_lengthD)
    with r show ?thesis by (simp add: n a)
  next
    case True
    let ?g = "\<lambda>p. case f p of Inl err \<Rightarrow> Inl err | Inr line \<Rightarrow> replacements re_sub df line"
    from c True have "collect (map f ?clean @ map ?g ?nulls) = Inr ls" by simp
    then obtain a b where a: "collect (map f ?clean) = Inr a"
      and b: "collect (map ?g ?nulls) = Inr b" and ls: "ls = a @ b"
      by (auto simp: collect_append split: sum.splits)
    from a have ra: "list_all2 (\<lambda>p l. f p = Inr l) ?clean a" by (rule collect_related)
    from b have "list_all2 (\<lambda>p l. ?g p = Inr l) ?nulls b" by (rule collect_related)
    then have rb: "list_all2 (\<lambda>p l. \<exists>line x. f p = Inr line \<and> re_sub (nan_pattern df) line = Inr x
                           \<and> l = sub_dangling (sub_comma_runs x)) ?nulls b"
      by (rule list_all2_mono)
        (auto simp: replacements_def on_result_def split: sum.splits)
    from ra have la: "length a = ?N" by (simp add: list_all2_lengthD)
    from rb have lb: "length b = length ?nulls" by (simp add: list_all2_lengthD)
    from ra rb la lb show ?thesis by (simp add: ls)
  qed
  have clean: "delimiter_clean l" if "l \<in> set (drop ?N ls)" for l
  proof -
    from parts have "list_all2 (\<lambda>p l. \<exists>line x. f p = Inr line \<and> re_sub (nan_pattern df) line = Inr x
                           \<and> l = sub_dangling (sub_comma_runs x)) ?nulls (drop ?N ls)"
      by blast
    with that obtain x where "l = sub_dangling (sub_comma_runs x)"
      by (auto simp: list_all2_conv_all_nth in_set_conv_nth)
    then show ?thesis by (simp add: sub_dangling_clean no_comma_runs)
  qed
  have lines: "split_on newline out = ls" if "ls \<noteq> [] \<and> (\<forall>l \<in> set ls. newline \<notin> set l)"
    using that unfolding out by (simp add: split_on_join)
  have plain: "line = render df measurement tag_columns extra_tags p"
    if "plain_inputs df measurement extra_tags" and "f p = Inr line" for p line
    using that(2) unfolding make_f_plain [OF that(1) mf] by (rule apply_render)
  from mf pl out parts clean lines plain show ?thesis by blast
qed

theorem parse_df_lines_and_null_rows_witness:
  "parse_df no_eval literal_sub weather (PStr ''m'') [] [(''dc'', PStr ''eu west'')]
     = Inr (join [newline] weather_lines)
   \<and> plain_inputs weather (PStr ''m'') [(''dc'', PStr ''eu west'')]
   \<and> split_on newline (join [newline] weather_lines) = weather_lines
   \<and> length weather_lines = 1 + 2
   \<and> render weather (PStr ''m'') [] [(''dc'', PStr ''eu west'')]
        (10, [PStr ''oslo'', PFloat ''1.5'', PInt 3]) = weather_lines ! 0
   \<and> (\<forall>l \<in> set (drop 1 weather_lines). delimiter_clean l)"
proof -
  have e: "parse_df no_eval literal_sub weather (PStr ''m'') [] [(''dc'', PStr ''eu west'')]
     = Inr (join [newline] weather_lines)"
    by code_simp
  have el: "parse_df_lines no_eval literal_sub weather (PStr ''m'') [] [(''dc'', PStr ''eu west'')]
     = Inr weather_lines"
    by code_simp
  have pi: "plain_inputs weather (PStr ''m'') [(''dc'', PStr ''eu west'')]"
    by code_simp
  have nn: "weather_lines \<noteq> [] \<and> (\<forall>l \<in> set weather_lines. newline \<notin> set l)"
    by code_simp
  have n: "filter (\<lambda>p. \<not> row_isnull p) (tb_rows weather) = [(10, [PStr ''oslo'', PFloat ''1.5'', PInt 3])]"
    "length (filter row_isnull (tb_rows weather)) = 2"
    by (simp_all add: weather_def row_isnull_def isnull_def)
  from parse_df_lines_and_null_rows [OF e] obtain f ls where
    mf: "make_f no_eval weather (PStr ''m'') [] [(''dc'', PStr ''eu west'')] = Inr f"
    and ls: "parse_df_lines no_eval literal_sub weather (PStr ''m'') [] [(''dc'', PStr ''eu west'')] = Inr ls"
    and len: "length ls = length (filter (\<lambda>p. \<not> row_isnull p) (tb_rows weather))
                    + length (filter row_isnull (tb_rows weather))"
    and first: "list_all2 (\<lambda>p l. f p = Inr l) (filter (\<lambda>p. \<not> row_isnull p) (tb_rows weather))
         (take (length (filter (\<lambda>p. \<not> row_isnull p) (tb_rows weather))) ls)"
    and cl: "\<forall>l \<in> set (drop (length (filter (\<lambda>p. \<not> row_isnull p) (tb_rows weather))) ls).
           delimiter_clean l"
    and sp: "ls \<noteq> [] \<and> (\<forall>l \<in> set ls. newline \<notin> set l) \<longrightarrow>
               split_on newline (join [newline] weather_lines) = ls"
    and rd: "plain_inputs weather (PStr ''m'') [(''dc'', PStr ''eu west'')] \<longrightarrow>
           (\<forall>p line. f p = Inr line \<longrightarrow>
              line = render weather (PStr ''m'') [] [(''dc'', PStr ''eu west'')] p)"
    by blast
  from ls el have eq: "ls = weather_lines" by simp
  from first have "f (10, [PStr ''oslo'', PFloat ''1.5'', PInt 3]) = Inr (weather_lines ! 0)"
    unfolding n eq by (simp add: weather_lines_def)
  with rd pi have r: "render weather (PStr ''m'') [] [(''dc'', PStr ''eu west'')]
        (10, [PStr ''oslo'', PFloat ''1.5'', PInt 3]) = weather_lines ! 0"
    by simp
  from e pi sp nn len cl r show ?thesis unfolding eq n by simp
qed

text \<open>
  C6 as the specification states it fails on the count of lines: the cells are not
  escaped, so the one row of a table whose text cell holds a line break comes out as two
  lines.
\<close>

theorem cell_line_break_counterexample:
  "parse_df no_eval literal_sub remarks (PStr ''m'') [] []
     = Inr (''m note='' @ [dquote] @ ''first'' @ [newline] @ ''second'' @ [dquote] @ '' 10'')
   \<and> length (filter (\<lambda>p. \<not> row_isnull p) (tb_rows remarks))
       + length (filter row_isnull (tb_rows remarks)) = 1
   \<and> length (split_on newline
        (''m note='' @ [dquote] @ ''first'' @ [newline] @ ''second'' @ [dquote] @ '' 10'')) = 2"
  by code_simp



end
